theory Spec2Isabelle
  imports Complex_Main "HOL-Library.Multiset" "HOL-Library.Log_Nat"
begin

section \<open>Python values used by the pipeline\<close>

text \<open>
  A Python \<open>str\<close> is a \<open>string\<close>; a character is read as the code point of the same
  number, so the model covers the strings whose code points are below 256.  A Python
  \<open>float\<close> is an IEEE binary64 value: a sign with a rational magnitude that is rounded to
  the nearest representable value after every operation, an infinity, or not-a-number.
\<close>

datatype pyfloat = Finite bool rat | Infinite bool | NaN

datatype pyval = PNone | PStr string | PInt int | PFloat pyfloat

datatype exn = ValueError | AttributeError | TypeError | OverflowError | ZeroDivisionError

subsection \<open>Rounding to binary64\<close>

definition round_half_even :: "rat \<Rightarrow> int" where
  "round_half_even r =
     (let f = \<lfloor>r\<rfloor>; d = r - of_int f
      in if d < 1 / 2 then f else if 1 / 2 < d then f + 1 else if even f then f else f + 1)"

definition floor_log2 :: "rat \<Rightarrow> int" where
  "floor_log2 q =
     (let k = int (floorlog 2 (nat (fst (quotient_of q)))) - int (floorlog 2 (nat (snd (quotient_of q))))
      in if 2 powi k \<le> q then k else k - 1)"

definition b64_round :: "rat \<Rightarrow> rat option" where
  "b64_round q =
     (if q = 0 then Some 0
      else let e = max (floor_log2 q - 52) (- 1074);
               v = of_int (round_half_even (q / 2 powi e)) * 2 powi e
           in if 2 ^ 1024 \<le> v then None else Some v)"

definition mk_float :: "bool \<Rightarrow> rat \<Rightarrow> pyfloat" where
  "mk_float s q = (case b64_round q of None \<Rightarrow> Infinite s | Some m \<Rightarrow> Finite s m)"

subsection \<open>Float operations\<close>

fun fneg :: "pyfloat \<Rightarrow> pyfloat" where
  "fneg (Finite s m) = Finite (\<not> s) m"
| "fneg (Infinite s) = Infinite (\<not> s)"
| "fneg NaN = NaN"

fun fmul :: "pyfloat \<Rightarrow> pyfloat \<Rightarrow> pyfloat" where
  "fmul NaN _ = NaN"
| "fmul _ NaN = NaN"
| "fmul (Finite s m) (Finite t n) = mk_float (s \<noteq> t) (m * n)"
| "fmul (Finite s m) (Infinite t) = (if m = 0 then NaN else Infinite (s \<noteq> t))"
| "fmul (Infinite s) (Finite t n) = (if n = 0 then NaN else Infinite (s \<noteq> t))"
| "fmul (Infinite s) (Infinite t) = Infinite (s \<noteq> t)"

text \<open>\<open>x * n\<close> for an \<open>int\<close> literal \<open>n\<close> below \<open>2 ^ 53\<close>, which converts to a float exactly.\<close>

definition fmul_int :: "pyfloat \<Rightarrow> int \<Rightarrow> pyfloat" where
  "fmul_int x n = fmul x (Finite (n < 0) (of_int \<bar>n\<bar>))"

fun is_zero :: "pyfloat \<Rightarrow> bool" where
  "is_zero (Finite s m) = (m = 0)"
| "is_zero _ = False"

text \<open>\<open>x / y\<close>: Python raises on a zero divisor.\<close>

fun truediv :: "pyfloat \<Rightarrow> pyfloat \<Rightarrow> exn + pyfloat" where
  "truediv x (Finite t n) =
     (if n = 0 then Inl ZeroDivisionError
      else case x of
             Finite s m \<Rightarrow> Inr (mk_float (s \<noteq> t) (m / n))
           | Infinite s \<Rightarrow> Inr (Infinite (s \<noteq> t))
           | NaN \<Rightarrow> Inr NaN)"
| "truediv x (Infinite t) =
     (case x of Finite s m \<Rightarrow> Inr (Finite (s \<noteq> t) 0) | _ \<Rightarrow> Inr NaN)"
| "truediv x NaN = Inr NaN"

text \<open>\<open>x > 0\<close> and the truth value of a float (\<open>nan\<close> is true, both zeros are false).\<close>

fun gt_zero :: "pyfloat \<Rightarrow> bool" where
  "gt_zero (Finite s m) = (\<not> s \<and> 0 < m)"
| "gt_zero (Infinite s) = (\<not> s)"
| "gt_zero NaN = False"

fun truthy :: "pyval \<Rightarrow> bool" where
  "truthy PNone = False"
| "truthy (PStr s) = (s \<noteq> [])"
| "truthy (PInt n) = (n \<noteq> 0)"
| "truthy (PFloat x) = (\<not> is_zero x)"

subsection \<open>String methods\<close>

text \<open>
  \<open>str.isspace\<close> on the code points below 256: \<open>0x09\<close> to \<open>0x0D\<close>, \<open>0x1C\<close> to
  \<open>0x20\<close>, \<open>0x85\<close> and \<open>0xA0\<close>.
\<close>

definition is_space :: "char \<Rightarrow> bool" where
  "is_space c =
     (c \<in> set [CHR 0x09, CHR 0x0A, CHR 0x0B, CHR 0x0C, CHR 0x0D, CHR 0x1C, CHR 0x1D, CHR 0x1E,
                CHR 0x1F, CHR 0x20, CHR 0x85, CHR 0xA0])"

definition strip :: "string \<Rightarrow> string" where
  "strip s = rev (dropWhile is_space (rev (dropWhile is_space s)))"

text \<open>\<open>s.replace(c, '')\<close> for a one-character \<open>c\<close>.\<close>

definition remove_char :: "char \<Rightarrow> string \<Rightarrow> string" where
  "remove_char c s = filter (\<lambda>x. x \<noteq> c) s"

text \<open>
  \<open>str.lower\<close> on one character: the upper-case letters below 256 are \<open>A\<close> to \<open>Z\<close>
  and \<open>0xC0\<close> to \<open>0xDE\<close> without \<open>0xD7\<close>; the lower-case letter is 32 above, which
  sets the bit of value 32.
\<close>

fun lower_char :: "char \<Rightarrow> char" where
  "lower_char (Char b0 b1 b2 b3 b4 b5 b6 b7) =
     (let n = of_char (Char b0 b1 b2 b3 b4 b5 b6 b7) :: nat
      in if (65 \<le> n \<and> n \<le> 90) \<or> (192 \<le> n \<and> n \<le> 222 \<and> n \<noteq> 215)
         then Char b0 b1 b2 b3 b4 True b6 b7 else Char b0 b1 b2 b3 b4 b5 b6 b7)"

definition lower :: "string \<Rightarrow> string" where
  "lower s = map lower_char s"

subsection \<open>\<open>float(str)\<close>\<close>

definition is_digit :: "char \<Rightarrow> bool" where
  "is_digit c = (c \<in> set ''0123456789'')"

definition digit_val :: "char \<Rightarrow> nat" where
  "digit_val c = of_char c - 48"

definition digits_val :: "string \<Rightarrow> nat" where
  "digits_val ds = foldl (\<lambda>a c. 10 * a + digit_val c) 0 ds"

text \<open>
  The white space \<open>float\<close> strips: the C locale's, and the two non-ASCII spaces below
  256, which the conversion turns into blanks first.  The separators \<open>0x1c\<close> to
  \<open>0x1f\<close> are space for \<open>str.strip\<close> only.
\<close>

definition is_float_space :: "char \<Rightarrow> bool" where
  "is_float_space c =
     (c \<in> set [CHR 0x09, CHR 0x0A, CHR 0x0B, CHR 0x0C, CHR 0x0D, CHR 0x20, CHR 0x85, CHR 0xA0])"

definition float_strip :: "string \<Rightarrow> string" where
  "float_strip s = rev (dropWhile is_float_space (rev (dropWhile is_float_space s)))"

text \<open>An underscore is legal only between two digits; \<open>prev\<close> is the character before.\<close>

fun underscores_ok :: "char \<Rightarrow> string \<Rightarrow> bool" where
  "underscores_ok prev [] = (prev \<noteq> CHR ''_'')"
| "underscores_ok prev (c # cs) =
     ((if c = CHR ''_'' then is_digit prev
       else \<not> (prev = CHR ''_'' \<and> \<not> is_digit c)) \<and> underscores_ok c cs)"

definition parse_exponent :: "string \<Rightarrow> int option" where
  "parse_exponent r =
     (case r of
        [] \<Rightarrow> Some 0
      | c # r' \<Rightarrow>
          if c = CHR ''e'' \<or> c = CHR ''E'' then
            (let neg = (case r' of d # _ \<Rightarrow> d = CHR ''-'' | [] \<Rightarrow> False);
                 ds = (case r' of d # r'' \<Rightarrow> if d = CHR ''-'' \<or> d = CHR ''+'' then r'' else r' | [] \<Rightarrow> [])
             in if ds \<noteq> [] \<and> list_all is_digit ds
                then Some (if neg then - int (digits_val ds) else int (digits_val ds))
                else None)
          else None)"

definition parse_decimal :: "string \<Rightarrow> exn + pyfloat" where
  "parse_decimal r =
     (let ip = takeWhile is_digit r;
          r1 = dropWhile is_digit r;
          fp = (case r1 of c # r' \<Rightarrow> if c = CHR ''.'' then takeWhile is_digit r' else [] | [] \<Rightarrow> []);
          r2 = (case r1 of c # r' \<Rightarrow> if c = CHR ''.'' then dropWhile is_digit r' else r1 | [] \<Rightarrow> [])
      in if ip = [] \<and> fp = [] then Inl ValueError
         else case parse_exponent r2 of
                None \<Rightarrow> Inl ValueError
              | Some e \<Rightarrow>
                  Inr (mk_float False (of_nat (digits_val (ip @ fp)) * 10 powi (e - int (length fp)))))"

definition parse_abs :: "string \<Rightarrow> exn + pyfloat" where
  "parse_abs r =
     (if lower r = ''inf'' \<or> lower r = ''infinity'' then Inr (Infinite False)
      else if lower r = ''nan'' then Inr NaN
      else parse_decimal r)"

definition parse_signed :: "string \<Rightarrow> exn + pyfloat" where
  "parse_signed u =
     (case u of
        [] \<Rightarrow> Inl ValueError
      | c # r \<Rightarrow>
          if c = CHR ''-'' then (case parse_abs r of Inl e \<Rightarrow> Inl e | Inr x \<Rightarrow> Inr (fneg x))
          else if c = CHR ''+'' then parse_abs r
          else parse_abs u)"

definition py_float :: "string \<Rightarrow> exn + pyfloat" where
  "py_float s =
     (let t = float_strip s
      in if \<not> underscores_ok (CHR 0x00) t then Inl ValueError
         else parse_signed (remove_char (CHR ''_'') t))"

section \<open>The numeric parser, \<open>DefillamaPipeline._convert_to_number\<close>\<close>

text \<open>A method call on a value that is not a \<open>str\<close> raises \<open>AttributeError\<close>.\<close>

definition as_str :: "pyval \<Rightarrow> exn + string" where
  "as_str v = (case v of PStr s \<Rightarrow> Inr s | _ \<Rightarrow> Inl AttributeError)"

definition clean :: "string \<Rightarrow> string" where
  "clean s = strip (remove_char (CHR '','') (remove_char (CHR ''$'') s))"

text \<open>The body of the \<open>try\<close> block.\<close>

definition convert_body :: "pyval \<Rightarrow> exn + pyfloat" where
  "convert_body value_str =
     (case as_str value_str of
        Inl e \<Rightarrow> Inl e
      | Inr s \<Rightarrow>
          (let clean_str = clean s
           in if CHR ''b'' \<in> set (lower clean_str) then
                (case py_float (remove_char (CHR ''b'') (lower clean_str)) of
                   Inl e \<Rightarrow> Inl e | Inr x \<Rightarrow> Inr (fmul_int x 1000000000))
              else if CHR ''m'' \<in> set (lower clean_str) then
                (case py_float (remove_char (CHR ''m'') (lower clean_str)) of
                   Inl e \<Rightarrow> Inl e | Inr x \<Rightarrow> Inr (fmul_int x 1000000))
              else py_float clean_str))"

text \<open>
  \<open>except (ValueError, AttributeError): return None\<close>; any other exception leaves the
  function.
\<close>

definition convert_to_number :: "pyval \<Rightarrow> exn + pyfloat option" where
  "convert_to_number value_str =
     (case convert_body value_str of
        Inr x \<Rightarrow> Inr (Some x)
      | Inl ValueError \<Rightarrow> Inr None
      | Inl AttributeError \<Rightarrow> Inr None
      | Inl e \<Rightarrow> Inl e)"

section \<open>Formatting, \<open>f"{x:.2f}"\<close>\<close>

definition digit_char :: "nat \<Rightarrow> char" where
  "digit_char d = ''0123456789'' ! d"

function dec_str :: "nat \<Rightarrow> string" where
  "dec_str n = (if n < 10 then [digit_char n] else dec_str (n div 10) @ [digit_char (n mod 10)])"
  by pat_completeness auto
termination
  by (relation "measure id") auto

declare dec_str.simps [simp del]

text \<open>
  Fixed notation with two decimals: the exact value, rounded half to even at the second
  decimal; the sign is kept when the digits are all zero.
\<close>

definition format_2f :: "pyfloat \<Rightarrow> string" where
  "format_2f x =
     (case x of
        Finite s m \<Rightarrow>
          (let n = nat (round_half_even (m * 100))
           in (if s then ''-'' else []) @ dec_str (n div 100) @ ''.'' @
              [digit_char (n mod 100 div 10), digit_char (n mod 10)])
      | Infinite s \<Rightarrow> (if s then ''-inf'' else ''inf'')
      | NaN \<Rightarrow> ''nan'')"

section \<open>Items and the table \<open>defillama_metrics\<close>\<close>

text \<open>
  A scraped item: each field is absent (\<open>None\<close>) or holds a value.  The spider assigns
  its own \<open>protocol\<close> argument, a \<open>str\<close>, to the field \<open>protocol\<close>.
\<close>

record item =
  protocol :: "string option"
  market_cap :: "pyval option"
  annual_revenue :: "pyval option"
  pe_ratio :: "pyval option"

text \<open>\<open>item.get(k)\<close> and \<open>item.get(k, d)\<close>.\<close>

definition get :: "pyval option \<Rightarrow> pyval" where
  "get f = (case f of None \<Rightarrow> PNone | Some v \<Rightarrow> v)"

definition get_default :: "'a option \<Rightarrow> 'a \<Rightarrow> 'a" where
  "get_default f d = (case f of None \<Rightarrow> d | Some v \<Rightarrow> v)"

text \<open>
  A row of the table.  \<open>row_id\<close> is the column \<open>id\<close>; a timestamp is the reading of the
  clock, in microseconds; a \<open>REAL\<close> column holds a float or \<open>NULL\<close>.
\<close>

record row =
  row_id :: nat
  timestamp :: nat
  ticker :: string
  price :: "pyfloat option"
  market_cap_col :: "pyfloat option"
  annualized_revenue :: "pyfloat option"
  pe_ratio_col :: "pyfloat option"

text \<open>The table with the counter that \<open>AUTOINCREMENT\<close> keeps in \<open>sqlite_sequence\<close>.\<close>

record db =
  rows :: "row list"
  seq :: nat

definition empty_db :: db where
  "empty_db = \<lparr>rows = [], seq = 0\<rparr>"

text \<open>The next \<open>id\<close>: one more than the largest \<open>id\<close> the table has ever held.\<close>

definition next_id :: "db \<Rightarrow> nat" where
  "next_id d = fold max (map row_id (rows d)) (seq d) + 1"

text \<open>
  Binding a float to a \<open>REAL\<close> column: SQLite stores \<open>nan\<close> as \<open>NULL\<close> and drops the sign
  of a zero.
\<close>

definition sql_real :: "pyfloat option \<Rightarrow> pyfloat option" where
  "sql_real v =
     (case v of
        None \<Rightarrow> None
      | Some NaN \<Rightarrow> None
      | Some (Finite s m) \<Rightarrow> Some (Finite (s \<and> m \<noteq> 0) m)
      | Some (Infinite s) \<Rightarrow> Some (Infinite s))"

definition insert_row ::
  "db \<Rightarrow> nat \<Rightarrow> string \<Rightarrow> pyfloat option \<Rightarrow> pyfloat option \<Rightarrow> pyfloat option \<Rightarrow> db" where
  "insert_row d now tk mc ar pe =
     \<lparr>rows = rows d @
        [\<lparr>row_id = next_id d, timestamp = now, ticker = tk, price = None,
          market_cap_col = sql_real mc, annualized_revenue = sql_real ar,
          pe_ratio_col = sql_real pe\<rparr>],
      seq = next_id d\<rparr>"

section \<open>\<open>DefillamaPipeline.store_in_database\<close>\<close>

text \<open>\<open>float(v)\<close> for a value of any type.\<close>

definition float_of :: "pyval \<Rightarrow> exn + pyfloat" where
  "float_of v =
     (case v of
        PStr s \<Rightarrow> py_float s
      | PFloat x \<Rightarrow> Inr x
      | PInt n \<Rightarrow>
          (case b64_round (of_int \<bar>n\<bar>) of
             None \<Rightarrow> Inl OverflowError | Some m \<Rightarrow> Inr (Finite (n < 0) m))
      | PNone \<Rightarrow> Inl TypeError)"

text \<open>The body of the \<open>try\<close> block; \<open>now\<close> is what \<open>datetime.now()\<close> returns.\<close>

definition store_body :: "nat \<Rightarrow> db \<Rightarrow> item \<Rightarrow> exn + db" where
  "store_body now d it =
     (case convert_to_number (get_default (market_cap it) (PStr ''0'')) of
        Inl e \<Rightarrow> Inl e
      | Inr market_cap_num \<Rightarrow>
     (case convert_to_number (get_default (annual_revenue it) (PStr ''0'')) of
        Inl e \<Rightarrow> Inl e
      | Inr annual_revenue_num \<Rightarrow>
     (case (if get (pe_ratio it) \<noteq> PStr ''Not calculable''
            then (case float_of (get_default (pe_ratio it) (PStr ''0'')) of
                    Inl e \<Rightarrow> Inl e | Inr x \<Rightarrow> Inr (Some x))
            else Inr None) of
        Inl e \<Rightarrow> Inl e
      | Inr pe_ratio_num \<Rightarrow>
          Inr (insert_row d now (get_default (protocol it) [])
                 market_cap_num annual_revenue_num pe_ratio_num))))"

text \<open>
  \<open>except Exception\<close> prints and goes on, so the table is then as before.  The function
  has no \<open>return\<close>: its value is \<open>None\<close>.
\<close>

definition store_in_database :: "nat \<Rightarrow> db \<Rightarrow> item \<Rightarrow> db \<times> pyval" where
  "store_in_database now d it =
     (case store_body now d it of Inl e \<Rightarrow> (d, PNone) | Inr d' \<Rightarrow> (d', PNone))"

section \<open>\<open>DefillamaPipeline.process_item\<close>\<close>

text \<open>The loop body over the two fields: a non-empty \<open>str\<close> is replaced by its cleaned form.\<close>

definition clean_field :: "pyval option \<Rightarrow> pyval option" where
  "clean_field f =
     (case f of
        Some (PStr s) \<Rightarrow> if s \<noteq> [] then Some (PStr (clean s)) else f
      | _ \<Rightarrow> f)"

text \<open>The ratio string, from the original values of the two fields.\<close>

definition calc_pe_ratio :: "pyval \<Rightarrow> pyval \<Rightarrow> exn + string" where
  "calc_pe_ratio original_market_cap original_annual_revenue =
     (if truthy original_market_cap \<and> truthy original_annual_revenue
         \<and> original_market_cap \<noteq> PStr ''Not found''
         \<and> original_annual_revenue \<noteq> PStr ''Not found''
      then
        (case as_str original_market_cap of
           Inl e \<Rightarrow> Inl e
         | Inr s1 \<Rightarrow>
        (case convert_to_number (PStr (strip s1)) of
           Inl e \<Rightarrow> Inl e
         | Inr market_cap_num \<Rightarrow>
        (case as_str original_annual_revenue of
           Inl e \<Rightarrow> Inl e
         | Inr s2 \<Rightarrow>
        (case convert_to_number (PStr (strip s2)) of
           Inl e \<Rightarrow> Inl e
         | Inr annual_revenue_num \<Rightarrow>
             (case (market_cap_num, annual_revenue_num) of
                (Some m, Some a) \<Rightarrow>
                  if \<not> is_zero m \<and> \<not> is_zero a \<and> gt_zero a
                  then (case truediv m a of
                          Inl e \<Rightarrow> Inl e
                        | Inr q \<Rightarrow> Inr (format_2f q))
                  else Inr ''Not calculable''
              | _ \<Rightarrow> Inr ''Not calculable'')))))
      else Inr ''Not calculable'')"

text \<open>
  The item is updated in place and returned, so the item of the result is also what the
  caller's item has become.
\<close>

definition process_item :: "nat \<Rightarrow> db \<Rightarrow> item \<Rightarrow> exn + item \<times> db" where
  "process_item now d it =
     (let original_market_cap = get (market_cap it);
          original_annual_revenue = get (annual_revenue it);
          it1 = it\<lparr>market_cap := clean_field (market_cap it),
                   annual_revenue := clean_field (annual_revenue it)\<rparr>
      in case calc_pe_ratio original_market_cap original_annual_revenue of
           Inl e \<Rightarrow> Inl e
         | Inr r \<Rightarrow>
             (let it2 = it1\<lparr>pe_ratio := Some (PStr r)\<rparr>
              in Inr (it2, fst (store_in_database now d it2))))"

text \<open>A run of the pipeline over several items, each with the reading of the clock at its turn.\<close>

fun run_pipeline :: "(nat \<times> item) list \<Rightarrow> db \<Rightarrow> exn + db" where
  "run_pipeline [] d = Inr d"
| "run_pipeline ((now, it) # xs) d =
     (case process_item now d it of
        Inl e \<Rightarrow> Inl e
      | Inr (it', d') \<Rightarrow> run_pipeline xs d')"

section \<open>The queries of \<open>query_database.py\<close>\<close>

text \<open>\<open>SELECT MAX(id) FROM defillama_metrics GROUP BY ticker\<close>\<close>

definition max_ids :: "row list \<Rightarrow> nat list" where
  "max_ids rs =
     map (\<lambda>t. Max (set (map row_id (filter (\<lambda>r. ticker r = t) rs)))) (remdups (map ticker rs))"

text \<open>\<open>WHERE id IN (...)\<close>\<close>

definition latest_entries :: "row list \<Rightarrow> row list" where
  "latest_entries rs = filter (\<lambda>r. row_id r \<in> set (max_ids rs)) rs"

text \<open>
  \<open>ORDER BY timestamp DESC\<close>: the same rows, latest first.  SQL leaves the order of rows
  with equal timestamps open, so the result is any such arrangement.
\<close>

definition order_by_timestamp_desc :: "row list \<Rightarrow> row list \<Rightarrow> bool" where
  "order_by_timestamp_desc rs df =
     (mset df = mset rs \<and> sorted_wrt (\<lambda>a b. timestamp b \<le> timestamp a) df)"

text \<open>
  \<open>query_database\<close>: \<open>df\<close> is a data frame the query may produce, which the function
  prints.  The \<open>SELECT\<close> list leaves out \<open>id\<close>; the rows keep it here to tell which
  record each one is.
\<close>

definition query_database :: "db \<Rightarrow> row list \<Rightarrow> bool" where
  "query_database d df = order_by_timestamp_desc (latest_entries (rows d)) df"

text \<open>\<open>ORDER BY timestamp DESC LIMIT 1\<close>: no row of an empty selection, else one latest row.\<close>

definition latest_by_timestamp :: "row list \<Rightarrow> row list \<Rightarrow> bool" where
  "latest_by_timestamp rs df =
     (case df of
        [] \<Rightarrow> rs = []
      | [r] \<Rightarrow> r \<in> set rs \<and> (\<forall>r' \<in> set rs. timestamp r' \<le> timestamp r)
      | _ \<Rightarrow> False)"

text \<open>\<open>SELECT ticker, MAX(timestamp) ... GROUP BY ticker\<close>: one pair for each ticker.\<close>

definition ticker_summary :: "row list \<Rightarrow> (string \<times> nat) list \<Rightarrow> bool" where
  "ticker_summary rs df =
     (distinct df \<and>
      set df = set (map (\<lambda>t. (t, Max (set (map timestamp (filter (\<lambda>r. ticker r = t) rs)))))
                     (remdups (map ticker rs))))"

datatype dataframe = Rows "row list" | Summary "(string \<times> nat) list"

text \<open>\<open>get_latest_data(ticker=None)\<close>: \<open>if ticker:\<close> takes a non-empty string only.\<close>

definition get_latest_data :: "db \<Rightarrow> string option \<Rightarrow> dataframe \<Rightarrow> bool" where
  "get_latest_data d tk df =
     (if tk \<noteq> None \<and> tk \<noteq> Some []
      then (case df of
              Rows xs \<Rightarrow> latest_by_timestamp (filter (\<lambda>r. ticker r = the tk) (rows d)) xs
            | Summary _ \<Rightarrow> False)
      else (case df of
              Rows _ \<Rightarrow> False
            | Summary ys \<Rightarrow> ticker_summary (rows d) ys))"

section \<open>Notions used to state the properties\<close>

text \<open>The string that \<open>_convert_to_number\<close> hands to \<open>float\<close>.\<close>

definition numeric_part :: "string \<Rightarrow> string" where
  "numeric_part s =
     (let c = clean s
      in if CHR ''b'' \<in> set (lower c) then remove_char (CHR ''b'') (lower c)
         else if CHR ''m'' \<in> set (lower c) then remove_char (CHR ''m'') (lower c)
         else c)"

text \<open>The primary key: no two rows have the same \<open>id\<close>.\<close>

definition wf_db :: "db \<Rightarrow> bool" where
  "wf_db d = distinct (map row_id (rows d))"

text \<open>An item whose two raw fields are absent, \<open>None\<close> or a \<open>str\<close>, as the spider builds it.\<close>

definition str_field :: "pyval option \<Rightarrow> bool" where
  "str_field f = (case f of None \<Rightarrow> True | Some PNone \<Rightarrow> True | Some (PStr s) \<Rightarrow> True | _ \<Rightarrow> False)"

definition str_item :: "item \<Rightarrow> bool" where
  "str_item it = (str_field (market_cap it) \<and> str_field (annual_revenue it))"

text \<open>The columns of a row that the pipeline fills, without \<open>id\<close> and \<open>timestamp\<close>.\<close>

definition row_fields ::
  "row \<Rightarrow> string \<times> pyfloat option \<times> pyfloat option \<times> pyfloat option \<times> pyfloat option" where
  "row_fields r = (ticker r, price r, market_cap_col r, annualized_revenue r, pe_ratio_col r)"

text \<open>
  The string spells an infinity or not-a-number for \<open>float\<close>: inside the white space and
  after one optional sign it reads \<open>inf\<close>, \<open>infinity\<close> or \<open>nan\<close> in any case.
\<close>

definition spells_inf_nan :: "string \<Rightarrow> bool" where
  "spells_inf_nan r =
     (let t = float_strip r;
          u = (case t of [] \<Rightarrow> [] | c # v \<Rightarrow> if c = CHR ''-'' \<or> c = CHR ''+'' then v else t)
      in lower u \<in> set [''inf'', ''infinity'', ''nan''])"

text \<open>
  The characters that occur in some string \<open>float\<close> accepts: digits, white space, signs,
  the point, the underscore, the exponent mark, and the letters of \<open>infinity\<close> and \<open>nan\<close>.
\<close>

definition float_char :: "char \<Rightarrow> bool" where
  "float_char c =
     (is_digit c \<or> is_float_space c \<or> c \<in> set ''+-._eE'' \<or> lower_char c \<in> set ''infinityna'')"

text \<open>
  A decimal numeral: the digits \<open>D\<close> of the whole part, and after a point the digits \<open>F\<close>
  of the fraction when there are any; and the number it denotes.
\<close>

definition decimal_text :: "string \<Rightarrow> string \<Rightarrow> string" where
  "decimal_text D F = (if F = [] then D else D @ CHR ''.'' # F)"

definition decimal_value :: "string \<Rightarrow> string \<Rightarrow> rat" where
  "decimal_value D F = of_nat (digits_val (D @ F)) / 10 ^ length F"

text \<open>What \<open>_convert_to_number\<close> returns for a value.\<close>

definition parsed :: "pyval \<Rightarrow> pyfloat option" where
  "parsed v = (case convert_to_number v of Inr r \<Rightarrow> r | Inl e \<Rightarrow> None)"

text \<open>What \<open>store_in_database\<close> binds to the column \<open>pe_ratio\<close> for a ratio string.\<close>

definition stored_ratio :: "string \<Rightarrow> pyfloat option" where
  "stored_ratio r =
     (if r = ''Not calculable'' then None
      else (case py_float r of Inl e \<Rightarrow> None | Inr y \<Rightarrow> Some y))"

section \<open>The parser: exceptions and failures\<close>

lemma parse_decimal_err: "parse_decimal r = Inl e \<Longrightarrow> e = ValueError"
  by (auto simp: parse_decimal_def Let_def split: if_splits option.splits)

lemma parse_abs_err: "parse_abs r = Inl e \<Longrightarrow> e = ValueError"
  by (auto simp: parse_abs_def dest: parse_decimal_err split: if_splits)

lemma parse_signed_err: "parse_signed r = Inl e \<Longrightarrow> e = ValueError"
  by (auto simp: parse_signed_def dest: parse_abs_err split: if_splits list.splits sum.splits)

lemma py_float_err: "py_float s = Inl e \<Longrightarrow> e = ValueError"
  by (auto simp: py_float_def Let_def dest: parse_signed_err split: if_splits)

lemma convert_body_err: "convert_body v = Inl e \<Longrightarrow> e = ValueError \<or> e = AttributeError"
  by (auto simp: convert_body_def as_str_def Let_def dest: py_float_err
      split: pyval.splits if_splits sum.splits)

lemma convert_to_number_total: "\<exists>r. convert_to_number v = Inr r"
  by (auto simp: convert_to_number_def dest: convert_body_err split: sum.splits exn.splits)

lemma py_float_empty: "py_float [] = Inl ValueError"
  by (simp add: py_float_def float_strip_def parse_signed_def remove_char_def)

lemma convert_non_str:
  "convert_to_number PNone = Inr None"
  "convert_to_number (PInt n) = Inr None"
  "convert_to_number (PFloat x) = Inr None"
  by (simp_all add: convert_to_number_def convert_body_def as_str_def)

lemma convert_str:
  "convert_to_number (PStr s) =
     Inr (case py_float (numeric_part s) of
            Inl e \<Rightarrow> None
          | Inr x \<Rightarrow>
              Some (if CHR ''b'' \<in> set (lower (clean s)) then fmul_int x 1000000000
                    else if CHR ''m'' \<in> set (lower (clean s)) then fmul_int x 1000000
                    else x))"
  by (auto simp: convert_to_number_def convert_body_def as_str_def numeric_part_def Let_def
      dest: py_float_err split: sum.splits)

section \<open>Rounding: values that binary64 holds exactly\<close>

lemma floor_log2_le:
  assumes "0 < q"
  shows "2 powi (floor_log2 q) \<le> q"
proof -
  obtain n d where nd: "quotient_of q = (n, d)" by (cases "quotient_of q")
  have d: "0 < d" using nd by (rule quotient_of_denom_pos)
  have q: "q = of_int n / of_int d" using nd by (rule quotient_of_div)
  have n: "0 < n" using assms d q by (simp add: zero_less_divide_iff)
  define bn where "bn = floorlog 2 (nat n)"
  define bd where "bd = floorlog 2 (nat d)"
  have bn: "2 ^ (bn - 1) \<le> nat n" and bn0: "0 < bn"
    using floorlog_bounds [of "nat n" 2] n by (auto simp: bn_def floorlog_def)
  have bd: "nat d < 2 ^ bd"
    using floorlog_bounds [of "nat d" 2] d by (auto simp: bd_def)
  have n': "(2::rat) ^ (bn - 1) \<le> of_int n"
  proof -
    have "(of_nat (2 ^ (bn - 1)) :: rat) \<le> of_nat (nat n)" using bn by (simp only: of_nat_le_iff)
    then show ?thesis using n by simp
  qed
  have d': "(of_int d :: rat) < 2 ^ bd"
  proof -
    have "(of_nat (nat d) :: rat) < of_nat (2 ^ bd)" using bd by (simp only: of_nat_less_iff)
    then show ?thesis using d by simp
  qed
  have dpos: "(0::rat) < of_int d" using d by simp
  have low: "2 powi (int bn - int bd - 1) \<le> q"
  proof -
    obtain k where k: "bn = Suc k" using bn0 by (cases bn) auto
    have "(2::rat) powi (int bn - int bd - 1) = 2 ^ (bn - 1) / 2 ^ bd"
      by (simp add: k power_int_diff)
    also have "\<dots> \<le> of_int n / 2 ^ bd" using n' by (simp add: divide_right_mono)
    also have "\<dots> \<le> of_int n / of_int d"
      using d' dpos n by (intro divide_left_mono) (auto simp: less_imp_le)
    finally show ?thesis by (simp add: q)
  qed
  show ?thesis
    using low nd by (simp add: floor_log2_def Let_def bn_def bd_def)
qed

lemma round_half_even_of_int: "round_half_even (of_int k) = k"
  by (simp add: round_half_even_def)

lemma b64_round_exact:
  assumes m: "0 < m" "m < 2 ^ 53" and e: "- 1074 \<le> e" "e \<le> 971"
  shows "b64_round (of_int m * 2 powi e) = Some (of_int m * 2 powi e)"
proof -
  define q :: rat where "q = of_int m * 2 powi e"
  have q0: "0 < q" using m by (simp add: q_def)
  have lt: "q < 2 powi (e + 53)"
  proof -
    have "(of_int m :: rat) < of_int (2 ^ 53)" using m by (simp only: of_int_less_iff)
    then have "(of_int m :: rat) < 2 powi 53" by simp
    then have "of_int m * 2 powi e < (2::rat) powi 53 * 2 powi e"
      by (intro mult_strict_right_mono) auto
    then show ?thesis by (simp add: q_def power_int_add mult.commute)
  qed
  have "(2::rat) powi (floor_log2 q) < 2 powi (e + 53)"
    using floor_log2_le [OF q0] lt by simp
  then have fl: "floor_log2 q - 52 \<le> e"
    using power_int_strict_increasing [of "e + 53" "floor_log2 q" "2::rat"]
    by (cases "floor_log2 q < e + 53") (auto simp: not_less dest: power_int_increasing [of _ _ "2::rat"])
  define e' where "e' = max (floor_log2 q - 52) (- 1074)"
  have e': "e' \<le> e" using fl e by (simp add: e'_def)
  have "q / 2 powi e' = of_int m * 2 powi (e - e')"
    by (simp add: q_def power_int_diff)
  also have "\<dots> = of_int (m * 2 ^ nat (e - e'))"
    using e' by (simp add: power_int_def)
  finally have r: "round_half_even (q / 2 powi e') = m * 2 ^ nat (e - e')"
    by (simp only: round_half_even_of_int)
  have v: "of_int (round_half_even (q / 2 powi e')) * 2 powi e' = q"
  proof -
    have "of_int (m * 2 ^ nat (e - e')) * (2::rat) powi e' = of_int m * (2 powi (e - e') * 2 powi e')"
      using e' by (simp add: power_int_def)
    also have "\<dots> = q" by (simp add: q_def flip: power_int_add)
    finally show ?thesis by (simp only: r)
  qed
  have "q < 2 ^ 1024"
  proof -
    have "(2::rat) powi (e + 53) \<le> 2 powi 1024"
      using e by (intro power_int_increasing) auto
    then show ?thesis using lt by simp
  qed
  then show ?thesis
    using q0 v unfolding b64_round_def Let_def q_def [symmetric] e'_def [symmetric]
    by simp
qed

lemma b64_round_int: "0 < n \<Longrightarrow> n < 2 ^ 53 \<Longrightarrow> b64_round (of_int n) = Some (of_int n)"
  using b64_round_exact [of n 0] by simp

lemma mk_float_exact:
  "0 < m \<Longrightarrow> m < 2 ^ 53 \<Longrightarrow> - 1074 \<le> e \<Longrightarrow> e \<le> 971
   \<Longrightarrow> mk_float s (of_int m * 2 powi e) = Finite s (of_int m * 2 powi e)"
  by (simp add: mk_float_def b64_round_exact)

lemma mk_float_int: "0 < n \<Longrightarrow> n < 2 ^ 53 \<Longrightarrow> mk_float s (of_int n) = Finite s (of_int n)"
  using mk_float_exact [of n 0 s] by simp

lemma mk_float_zero: "mk_float s 0 = Finite s 0"
  by (simp add: mk_float_def b64_round_def)

lemma fmul_int_exact:
  "0 < n \<Longrightarrow> 0 < k \<Longrightarrow> n * k < 2 ^ 53
   \<Longrightarrow> fmul_int (Finite s (of_int n)) k = Finite s (of_int (n * k))"
  using mk_float_int [of "n * k" s] by (simp add: fmul_int_def)

lemma fmul_int_special:
  "fmul_int (Infinite s) 1000000000 = Infinite s"
  "fmul_int (Infinite s) 1000000 = Infinite s"
  "fmul_int NaN k = NaN"
  by (simp_all add: fmul_int_def)

section \<open>Stripping and cleaning\<close>

lemma strip_pad:
  assumes "\<forall>x\<in>set a. is_space x" "\<forall>x\<in>set b. is_space x"
  shows "strip (a @ t @ b) = strip t"
proof (cases "\<forall>x\<in>set t. is_space x")
  case True
  then have "dropWhile is_space (a @ t @ b) = []" "dropWhile is_space t = []"
    unfolding dropWhile_eq_Nil_conv using assms by auto
  then show ?thesis by (simp only: strip_def)
next
  case False
  then obtain x where x: "x \<in> set (dropWhile is_space t)" "\<not> is_space x"
    by (metis dropWhile_eq_Nil_conv hd_dropWhile hd_in_set)
  have "dropWhile is_space (a @ t @ b) = dropWhile is_space (t @ b)"
    using assms(1) by (intro dropWhile_append2) auto
  also have "\<dots> = dropWhile is_space t @ b"
    using False by (metis dropWhile_append1)
  finally have "rev (dropWhile is_space (a @ t @ b)) = rev b @ rev (dropWhile is_space t)"
    by simp
  moreover have "dropWhile is_space (rev b @ u) = dropWhile is_space u" for u
    using assms(2) by (intro dropWhile_append2) auto
  ultimately show ?thesis
    by (simp only: strip_def)
qed

lemma strip_decomp:
  "\<exists>a b. (\<forall>x\<in>set a. is_space x) \<and> (\<forall>x\<in>set b. is_space x) \<and> s = a @ strip s @ b"
proof -
  define t where "t = dropWhile is_space s"
  have s: "s = takeWhile is_space s @ t" by (simp add: t_def)
  have "rev (dropWhile is_space (rev t)) @ rev (takeWhile is_space (rev t))
        = rev (takeWhile is_space (rev t) @ dropWhile is_space (rev t))"
    by (simp only: rev_append)
  also have "\<dots> = rev (rev t)" by (simp only: takeWhile_dropWhile_id)
  also have "\<dots> = t" by simp
  finally have t: "t = strip s @ rev (takeWhile is_space (rev t))"
    by (simp add: strip_def t_def)
  have "\<forall>x\<in>set (takeWhile is_space s). is_space x"
    "\<forall>x\<in>set (rev (takeWhile is_space (rev t))). is_space x"
    by (auto dest: set_takeWhileD)
  then show ?thesis using s t by metis
qed

lemma strip_filter:
  assumes "\<And>x. is_space x \<Longrightarrow> Q x"
  shows "strip (filter Q (strip s)) = strip (filter Q s)"
proof -
  obtain a b where ab: "\<forall>x\<in>set a. is_space x" "\<forall>x\<in>set b. is_space x" "s = a @ strip s @ b"
    using strip_decomp by blast
  have "filter Q s = filter Q a @ filter Q (strip s) @ filter Q b"
    by (subst ab(3)) simp
  moreover have "\<forall>x\<in>set (filter Q a). is_space x" "\<forall>x\<in>set (filter Q b). is_space x"
    using ab by auto
  ultimately show ?thesis by (simp add: strip_pad)
qed

lemma strip_idem: "strip (strip s) = strip s"
  using strip_filter [of "\<lambda>x. True" s] by simp

lemma clean_eq: "clean s = strip (filter (\<lambda>x. x \<noteq> CHR '','' \<and> x \<noteq> CHR ''$'') s)"
  by (simp add: clean_def remove_char_def conj_commute)

lemma space_not_sep: "is_space x \<Longrightarrow> x \<noteq> CHR '','' \<and> x \<noteq> CHR ''$''"
  by (auto simp: is_space_def)

lemma clean_strip: "clean (strip s) = clean s"
  unfolding clean_eq by (rule strip_filter) (rule space_not_sep)

lemma strip_clean: "strip (clean s) = clean s"
  by (simp add: clean_eq strip_idem)

lemma clean_clean: "clean (clean s) = clean s"
proof -
  have "clean (clean s) = strip (filter (\<lambda>x. x \<noteq> CHR '','' \<and> x \<noteq> CHR ''$'')
          (filter (\<lambda>x. x \<noteq> CHR '','' \<and> x \<noteq> CHR ''$'') s))"
    unfolding clean_eq by (rule strip_filter) (rule space_not_sep)
  then show ?thesis by (simp add: clean_eq)
qed

lemma numeric_part_strip: "numeric_part (strip s) = numeric_part s"
  by (simp add: numeric_part_def clean_strip)

lemma numeric_part_clean: "numeric_part (clean s) = numeric_part s"
  by (simp add: numeric_part_def clean_clean)

section \<open>Digits\<close>

lemma digit_char_is_digit: "k < 10 \<Longrightarrow> is_digit (digit_char k)"
proof -
  assume "k < 10"
  then have "k \<in> {0, 1, 2, 3, 4, 5, 6, 7, 8, 9}" by auto
  then show ?thesis by (auto simp: digit_char_def is_digit_def)
qed

lemma dec_str_digits: "dec_str n \<noteq> [] \<and> (\<forall>c\<in>set (dec_str n). is_digit c)"
proof (induction n rule: dec_str.induct)
  case (1 n)
  show ?case
  proof (cases "n < 10")
    case True
    then show ?thesis by (simp add: dec_str.simps [of n] digit_char_is_digit)
  next
    case False
    then show ?thesis using 1 by (simp add: dec_str.simps [of n] digit_char_is_digit)
  qed
qed

lemma digit_props:
  assumes "is_digit c"
  shows "\<not> is_float_space c" "c \<noteq> CHR ''_''" "c \<noteq> CHR ''-''" "c \<noteq> CHR ''+''" "c \<noteq> CHR ''.''"
    "lower_char c = c" "c \<noteq> CHR ''b''" "c \<noteq> CHR ''m''" "c \<noteq> CHR ''i''" "c \<noteq> CHR ''n''"
  using assms by (auto simp: is_digit_def is_float_space_def)

lemma not_digit: "\<not> is_digit (CHR ''.'')" "\<not> is_digit (CHR ''_'')"
  by (simp_all add: is_digit_def)

lemma underscores_ok_none: "CHR ''_'' \<notin> set t \<Longrightarrow> prev \<noteq> CHR ''_'' \<Longrightarrow> underscores_ok prev t"
  by (induction t arbitrary: prev) auto

lemma float_strip_id:
  assumes "t \<noteq> []" "\<not> is_float_space (hd t)" "\<not> is_float_space (last t)"
  shows "float_strip t = t"
proof -
  have "dropWhile is_float_space t = t" using assms(1,2) by (cases t) auto
  moreover have "dropWhile is_float_space (rev t) = rev t"
    using assms(1,3) by (cases "rev t") (auto simp: last_rev [symmetric] simp del: last_rev)
  ultimately show ?thesis by (simp add: float_strip_def)
qed

section \<open>What \<open>float\<close> accepts and rejects\<close>

lemma py_float_plain:
  assumes "t \<noteq> []" "\<not> is_float_space (hd t)" "\<not> is_float_space (last t)" "CHR ''_'' \<notin> set t"
  shows "py_float t = parse_signed t"
proof -
  have "float_strip t = t" using assms(1-3) by (rule float_strip_id)
  moreover have "remove_char (CHR ''_'') t = t"
    using assms(4) unfolding remove_char_def by (intro filter_True) auto
  moreover have "underscores_ok (CHR 0x00) t"
    using assms(4) by (intro underscores_ok_none) auto
  ultimately show ?thesis by (simp add: py_float_def)
qed

lemma parse_decimal_frac:
  assumes "D \<noteq> []" "\<forall>c\<in>set D. is_digit c" "\<forall>c\<in>set F. is_digit c"
  shows "parse_decimal (D @ CHR ''.'' # F) =
         Inr (mk_float False (of_nat (digits_val (D @ F)) * 10 powi (- int (length F))))"
proof -
  have ip: "takeWhile is_digit (D @ CHR ''.'' # F) = D"
    using assms(2) by (simp add: takeWhile_append2 not_digit)
  have r1: "dropWhile is_digit (D @ CHR ''.'' # F) = CHR ''.'' # F"
    using assms(2) by (simp add: dropWhile_append2 not_digit)
  have fp: "takeWhile is_digit F = F" "dropWhile is_digit F = []"
    using assms(3) by (simp_all add: takeWhile_eq_all_conv)
  show ?thesis
    unfolding parse_decimal_def ip r1 using assms(1) by (simp add: fp parse_exponent_def)
qed

lemma parse_decimal_whole:
  assumes "D \<noteq> []" "\<forall>c\<in>set D. is_digit c"
  shows "parse_decimal D = Inr (mk_float False (of_nat (digits_val D)))"
proof -
  have ip: "takeWhile is_digit D = D" "dropWhile is_digit D = []"
    using assms(2) by (simp_all add: takeWhile_eq_all_conv)
  show ?thesis
    unfolding parse_decimal_def ip using assms(1) by (simp add: parse_exponent_def)
qed

lemma lower_not_name:
  assumes "is_digit c"
  shows "lower (c # r) \<noteq> ''inf''" "lower (c # r) \<noteq> ''infinity''" "lower (c # r) \<noteq> ''nan''"
  using digit_props(6,9,10) [OF assms] by (auto simp: lower_def)

lemma parse_signed_digit:
  assumes "is_digit c"
  shows "parse_signed (c # r) = parse_decimal (c # r)"
  using digit_props(3,4) [OF assms] lower_not_name [OF assms, of r]
  by (simp add: parse_signed_def parse_abs_def)

lemma parse_signed_minus_digit:
  assumes "is_digit c"
  shows "parse_signed (CHR ''-'' # c # r) =
         (case parse_decimal (c # r) of Inl e \<Rightarrow> Inl e | Inr x \<Rightarrow> Inr (fneg x))"
  using lower_not_name [OF assms, of r] by (simp add: parse_signed_def parse_abs_def)

text \<open>The value of a digit string with a fraction, as binary64 holds it.\<close>

lemma py_float_frac:
  assumes "D \<noteq> []" "\<forall>c\<in>set D. is_digit c" "\<forall>c\<in>set F. is_digit c"
  shows "py_float (D @ CHR ''.'' # F) =
         Inr (mk_float False (of_nat (digits_val (D @ F)) * 10 powi (- int (length F))))"
    and "py_float (CHR ''-'' # D @ CHR ''.'' # F) =
         Inr (fneg (mk_float False (of_nat (digits_val (D @ F)) * 10 powi (- int (length F)))))"
proof -
  let ?t = "D @ CHR ''.'' # F"
  obtain c D' where c: "D = c # D'" using assms(1) by (cases D) auto
  have cd: "is_digit c" using assms(2) c by simp
  have la: "\<not> is_float_space (last ?t)"
    using assms(3) digit_props(1) [of "last F"] by (cases "F = []") (auto simp: is_float_space_def)
  have nu: "CHR ''_'' \<notin> set ?t"
    using assms(2,3) digit_props(2) by auto
  have "py_float ?t = parse_signed ?t"
    using la nu digit_props(1) [OF cd] by (intro py_float_plain) (auto simp: c)
  then show "py_float ?t =
         Inr (mk_float False (of_nat (digits_val (D @ F)) * 10 powi (- int (length F))))"
    using parse_signed_digit [OF cd, of "D' @ CHR ''.'' # F"] parse_decimal_frac [OF assms]
    by (simp add: c)
  have "py_float (CHR ''-'' # ?t) = parse_signed (CHR ''-'' # ?t)"
    using la nu by (intro py_float_plain) (auto simp: is_float_space_def)
  then show "py_float (CHR ''-'' # ?t) =
         Inr (fneg (mk_float False (of_nat (digits_val (D @ F)) * 10 powi (- int (length F)))))"
    using parse_signed_minus_digit [OF cd, of "D' @ CHR ''.'' # F"] parse_decimal_frac [OF assms]
    by (simp add: c)
qed

lemma py_float_whole:
  assumes "D \<noteq> []" "\<forall>c\<in>set D. is_digit c"
  shows "py_float D = Inr (mk_float False (of_nat (digits_val D)))"
proof -
  obtain c D' where c: "D = c # D'" using assms(1) by (cases D) auto
  have cd: "is_digit c" using assms(2) c by simp
  have la: "\<not> is_float_space (last D)"
    using assms digit_props(1) [of "last D"] by auto
  have nu: "CHR ''_'' \<notin> set D"
    using assms(2) digit_props(2) by auto
  have "py_float D = parse_signed D"
    using la nu digit_props(1) [OF cd] assms(1) by (intro py_float_plain) (auto simp: c)
  then show ?thesis
    using parse_signed_digit [OF cd, of D'] parse_decimal_whole [OF assms] by (simp add: c)
qed

lemma mk_float_not_NaN: "mk_float s q \<noteq> NaN"
  by (simp add: mk_float_def split: option.splits)

lemma fneg_NaN: "fneg y = NaN \<longleftrightarrow> y = NaN"
  by (cases y) auto

lemma py_float_format_2f: "\<exists>y. py_float (format_2f x) = Inr y \<and> (y = NaN \<longleftrightarrow> x = NaN)"
proof (cases x)
  case (Finite s m)
  define n where "n = nat (round_half_even (m * 100))"
  define F where "F = [digit_char (n mod 100 div 10), digit_char (n mod 10)]"
  have F: "\<forall>c\<in>set F. is_digit c"
    by (simp add: F_def digit_char_is_digit)
  have D: "dec_str (n div 100) \<noteq> []" "\<forall>c\<in>set (dec_str (n div 100)). is_digit c"
    using dec_str_digits [of "n div 100"] by auto
  have "format_2f x = (if s then ''-'' else []) @ dec_str (n div 100) @ CHR ''.'' # F"
    by (simp add: Finite format_2f_def Let_def n_def F_def)
  then show ?thesis
    using py_float_frac [OF D F] Finite by (cases s) (simp_all add: mk_float_not_NaN fneg_NaN)
next
  case (Infinite s)
  have "py_float ''inf'' = Inr (Infinite False)" "py_float ''-inf'' = Inr (Infinite True)"
    by (simp_all add: py_float_def float_strip_def is_float_space_def is_digit_def remove_char_def
        parse_signed_def parse_abs_def lower_def)
  then show ?thesis by (simp add: Infinite format_2f_def)
next
  case NaN
  have "py_float ''nan'' = Inr NaN"
    by (simp add: py_float_def float_strip_def is_float_space_def is_digit_def remove_char_def
        parse_signed_def parse_abs_def lower_def)
  then show ?thesis by (simp add: NaN format_2f_def)
qed

lemma parse_decimal_no_digit:
  assumes "\<forall>c\<in>set r. \<not> is_digit c"
  shows "parse_decimal r = Inl ValueError"
proof -
  have tw: "takeWhile is_digit v = []" if "set v \<subseteq> set r" for v
    using that assms by (cases v) auto
  have "takeWhile is_digit r = []" by (rule tw) simp
  moreover have "takeWhile is_digit v = []" if "dropWhile is_digit r = c # v" for c v
  proof (rule tw)
    have "set (c # v) \<subseteq> set r" using set_dropWhileD [of _ is_digit r] that by auto
    then show "set v \<subseteq> set r" by auto
  qed
  ultimately show ?thesis
    by (simp add: parse_decimal_def Let_def split: list.splits)
qed

lemma underscores_need_digit:
  "underscores_ok prev t \<Longrightarrow> \<not> is_digit prev \<Longrightarrow> \<forall>c\<in>set t. \<not> is_digit c \<Longrightarrow> CHR ''_'' \<notin> set t"
proof (induction t arbitrary: prev)
  case Nil
  then show ?case by simp
next
  case (Cons c cs)
  then have "c \<noteq> CHR ''_''" by auto
  moreover have "CHR ''_'' \<notin> set cs"
    using Cons.prems by (intro Cons.IH [of c]) auto
  ultimately show ?case by simp
qed

lemma float_strip_subset: "set (float_strip r) \<subseteq> set r"
proof -
  have "set (float_strip r) \<subseteq> set (dropWhile is_float_space r)"
    unfolding float_strip_def using set_dropWhileD [of _ is_float_space "rev (dropWhile is_float_space r)"]
    by auto
  then show ?thesis using set_dropWhileD [of _ is_float_space r] by auto
qed

lemma py_float_no_digit:
  assumes "\<forall>c\<in>set r. \<not> is_digit c" "\<not> spells_inf_nan r"
  shows "py_float r = Inl ValueError"
proof (cases "underscores_ok (CHR 0x00) (float_strip r)")
  case False
  then show ?thesis by (simp add: py_float_def)
next
  case True
  define t where "t = float_strip r"
  have nd: "\<forall>c\<in>set t. \<not> is_digit c"
    using assms(1) float_strip_subset [of r] by (auto simp: t_def)
  have "CHR ''_'' \<notin> set t"
    using True nd by (intro underscores_need_digit [of "CHR 0x00"]) (auto simp: t_def is_digit_def)
  then have rm: "remove_char (CHR ''_'') t = t"
    unfolding remove_char_def by (intro filter_True) auto
  have pf: "py_float r = parse_signed t"
    using True rm by (simp add: py_float_def t_def)
  show ?thesis
  proof (cases t)
    case Nil
    then show ?thesis by (simp add: pf parse_signed_def)
  next
    case (Cons c v)
    have v: "parse_decimal v = Inl ValueError" "parse_decimal t = Inl ValueError"
      using nd Cons by (auto intro!: parse_decimal_no_digit)
    have "lower (if c = CHR ''-'' \<or> c = CHR ''+'' then v else t) \<notin> set [''inf'', ''infinity'', ''nan'']"
      using assms(2) unfolding spells_inf_nan_def Let_def t_def [symmetric] Cons
      by (auto split: if_splits)
    then show ?thesis
      using v by (auto simp: pf parse_signed_def parse_abs_def Cons split: if_splits)
  qed
qed

lemma name_chars:
  assumes "lower u \<in> set [''inf'', ''infinity'', ''nan'']"
  shows "\<forall>c\<in>set u. lower_char c \<in> set ''infinityna''"
proof -
  have "set (lower u) \<subseteq> set ''infinityna''" using assms by auto
  then show ?thesis by (auto simp: lower_def)
qed

lemma name_char_props:
  assumes "lower_char c \<in> set ''infinityna''"
  shows "c \<noteq> CHR ''_''" "\<not> is_float_space c"
proof -
  have "lower_char (CHR ''_'') \<notin> set ''infinityna''" by simp
  then show "c \<noteq> CHR ''_''" using assms by auto
  have "\<forall>d\<in>set [CHR 0x09, CHR 0x0A, CHR 0x0B, CHR 0x0C, CHR 0x0D, CHR 0x20, CHR 0x85, CHR 0xA0].
          lower_char d \<notin> set ''infinityna''" by simp
  then show "\<not> is_float_space c" using assms unfolding is_float_space_def by blast
qed

lemma py_float_inf_nan:
  assumes "spells_inf_nan r"
  shows "py_float r \<in> {Inr (Infinite False), Inr (Infinite True), Inr NaN}"
proof -
  define t where "t = float_strip r"
  define u where "u = (case t of [] \<Rightarrow> [] | c # v \<Rightarrow> if c = CHR ''-'' \<or> c = CHR ''+'' then v else t)"
  have nm: "lower u \<in> set [''inf'', ''infinity'', ''nan'']"
    using assms unfolding spells_inf_nan_def Let_def u_def t_def by simp
  have un: "CHR ''_'' \<notin> set u"
    using name_chars [OF nm] name_char_props(1) by blast
  have "set t \<subseteq> set u \<union> {CHR ''-'', CHR ''+''}"
    unfolding u_def by (cases t) auto
  then have "CHR ''_'' \<notin> set t" using un by auto
  then have "underscores_ok (CHR 0x00) t" "remove_char (CHR ''_'') t = t"
    unfolding remove_char_def by (auto intro!: underscores_ok_none filter_True)
  then have pf: "py_float r = parse_signed t"
    by (simp add: py_float_def t_def)
  have pa: "parse_abs u = Inr (Infinite False) \<or> parse_abs u = Inr NaN"
    using nm unfolding parse_abs_def by (cases "lower u = ''nan''") simp_all
  show ?thesis
  proof (cases t)
    case Nil
    then have "u = []" by (simp add: u_def)
    then show ?thesis using nm by (simp add: lower_def)
  next
    case (Cons c v)
    show ?thesis
    proof (cases "c = CHR ''-''")
      case True
      then have "u = v" by (simp add: u_def Cons)
      then have "parse_signed t = Inr (Infinite True) \<or> parse_signed t = Inr NaN"
        using pa True unfolding parse_signed_def Cons by auto
      then show ?thesis unfolding pf by blast
    next
      case False
      show ?thesis
      proof (cases "c = CHR ''+''")
        case True
        then have "u = v" by (simp add: u_def Cons)
        then have "parse_signed t = parse_abs u"
          using True unfolding parse_signed_def Cons by simp
        then show ?thesis using pa unfolding pf by auto
      next
        case p: False
        then have "u = t" using False by (simp add: u_def Cons)
        moreover have "parse_signed t = parse_abs t"
          using False p unfolding parse_signed_def Cons by simp
        ultimately show ?thesis using pa unfolding pf by auto
      qed
    qed
  qed
qed

lemma float_strip_cover:
  assumes "c \<in> set r"
  shows "is_float_space c \<or> c \<in> set (float_strip r)"
proof -
  define t where "t = dropWhile is_float_space r"
  have "rev (dropWhile is_float_space (rev t)) @ rev (takeWhile is_float_space (rev t))
        = rev (takeWhile is_float_space (rev t) @ dropWhile is_float_space (rev t))"
    by (simp only: rev_append)
  also have "\<dots> = rev (rev t)" by (simp only: takeWhile_dropWhile_id)
  also have "\<dots> = t" by simp
  finally have t: "t = float_strip r @ rev (takeWhile is_float_space (rev t))"
    by (simp add: float_strip_def t_def)
  have "set r = set (takeWhile is_float_space r) \<union> set t"
    unfolding t_def by (metis set_append takeWhile_dropWhile_id)
  also have "set t = set (float_strip r) \<union> set (takeWhile is_float_space (rev t))"
    by (subst t) simp
  finally show ?thesis
    using assms by (auto dest: set_takeWhileD)
qed

lemma parse_exponent_chars:
  assumes "parse_exponent r = Some e"
  shows "\<forall>c\<in>set r. is_digit c \<or> c \<in> set ''+-eE''"
  using assms
  by (cases r) (auto simp: parse_exponent_def Let_def list_all_iff split: if_splits list.splits)

lemma parse_decimal_chars:
  assumes "parse_decimal r = Inr x"
  shows "\<forall>c\<in>set r. is_digit c \<or> c \<in> set ''+-.eE''"
proof -
  define r1 where "r1 = dropWhile is_digit r"
  have r: "set r = set (takeWhile is_digit r) \<union> set r1"
    unfolding r1_def by (metis set_append takeWhile_dropWhile_id)
  have ip: "\<forall>c\<in>set (takeWhile is_digit r). is_digit c"
    by (auto dest: set_takeWhileD)
  have "\<forall>c\<in>set r1. is_digit c \<or> c \<in> set ''+-.eE''"
  proof (cases r1)
    case Nil
    then show ?thesis by simp
  next
    case (Cons d r')
    show ?thesis
    proof (cases "d = CHR ''.''")
      case True
      obtain e where e: "parse_exponent (dropWhile is_digit r') = Some e"
        using assms unfolding parse_decimal_def Let_def r1_def [symmetric] Cons
        by (auto simp: True split: if_splits option.splits)
      have "set r' = set (takeWhile is_digit r') \<union> set (dropWhile is_digit r')"
        by (metis set_append takeWhile_dropWhile_id)
      then show ?thesis
        using parse_exponent_chars [OF e] by (auto simp: Cons True dest: set_takeWhileD)
    next
      case False
      obtain e where e: "parse_exponent r1 = Some e"
        using assms unfolding parse_decimal_def Let_def r1_def [symmetric] Cons
        by (auto simp: False split: if_splits option.splits)
      then show ?thesis
        using parse_exponent_chars [OF e] by auto
    qed
  qed
  then show ?thesis using r ip by auto
qed

lemma parse_abs_chars:
  assumes "parse_abs r = Inr x"
  shows "\<forall>c\<in>set r. float_char c"
proof (cases "lower r \<in> set [''inf'', ''infinity'', ''nan'']")
  case True
  then show ?thesis using name_chars [OF True] by (simp add: float_char_def)
next
  case False
  then have "parse_decimal r = Inr x" using assms by (simp add: parse_abs_def)
  then show ?thesis using parse_decimal_chars by (fastforce simp: float_char_def)
qed

lemma parse_signed_chars:
  assumes "parse_signed t = Inr x"
  shows "\<forall>c\<in>set t. float_char c"
proof (cases t)
  case Nil
  then show ?thesis by simp
next
  case (Cons c v)
  have sg: "float_char (CHR ''-'')" "float_char (CHR ''+'')"
    by (simp_all add: float_char_def)
  show ?thesis
  proof (cases "c = CHR ''-'' \<or> c = CHR ''+''")
    case True
    then obtain y where "parse_abs v = Inr y"
      using assms unfolding parse_signed_def Cons by (auto split: sum.splits if_splits)
    then show ?thesis using parse_abs_chars True sg by (auto simp: Cons)
  next
    case False
    then have "parse_abs t = Inr x"
      using assms unfolding parse_signed_def Cons by simp
    then show ?thesis using parse_abs_chars by blast
  qed
qed

lemma py_float_chars:
  assumes "py_float r = Inr x"
  shows "\<forall>c\<in>set r. float_char c"
proof
  fix c assume c: "c \<in> set r"
  have ps: "parse_signed (remove_char (CHR ''_'') (float_strip r)) = Inr x"
    using assms by (simp add: py_float_def Let_def split: if_splits)
  have "is_float_space c \<or> c = CHR ''_'' \<or> c \<in> set (remove_char (CHR ''_'') (float_strip r))"
    using float_strip_cover [OF c] by (auto simp: remove_char_def)
  then show "float_char c"
    using parse_signed_chars [OF ps] by (auto simp: float_char_def)
qed

lemma py_float_foreign:
  assumes "c \<in> set r" "\<not> float_char c"
  shows "py_float r = Inl ValueError"
proof (cases "py_float r")
  case (Inl e)
  then show ?thesis using py_float_err by simp
next
  case (Inr x)
  then show ?thesis using py_float_chars assms by blast
qed

lemma py_float_decimal_text:
  assumes "D \<noteq> []" "list_all is_digit D" "list_all is_digit F"
  shows "py_float (decimal_text D F) = Inr (mk_float False (decimal_value D F))"
proof (cases "F = []")
  case True
  then show ?thesis
    using py_float_whole [of D] assms by (simp add: decimal_text_def decimal_value_def list_all_iff)
next
  case False
  have "(10::rat) powi (- int (length F)) = 1 / 10 ^ length F"
    by (simp add: power_int_minus divide_inverse)
  then show ?thesis
    using py_float_frac(1) [of D F] assms False
    by (simp add: decimal_text_def decimal_value_def list_all_iff)
qed

lemma decimal_text_chars:
  assumes "list_all is_digit D" "list_all is_digit F"
  shows "lower (decimal_text D F) = decimal_text D F"
    "CHR ''b'' \<notin> set (decimal_text D F)" "CHR ''m'' \<notin> set (decimal_text D F)"
proof -
  have d: "is_digit c \<or> c = CHR ''.''" if "c \<in> set (decimal_text D F)" for c
    using assms that by (cases "F = []") (auto simp: decimal_text_def list_all_iff)
  have lc: "lower_char c = c" if "c \<in> set (decimal_text D F)" for c
  proof -
    have "lower_char (CHR ''.'') = CHR ''.''" by simp
    then show ?thesis using d [OF that] digit_props(6) [of c] by blast
  qed
  show "lower (decimal_text D F) = decimal_text D F"
    unfolding lower_def by (rule map_idI) (rule lc)
  show "CHR ''b'' \<notin> set (decimal_text D F)"
  proof
    assume "CHR ''b'' \<in> set (decimal_text D F)"
    from d [OF this] show False by (simp add: is_digit_def)
  qed
  show "CHR ''m'' \<notin> set (decimal_text D F)"
  proof
    assume "CHR ''m'' \<in> set (decimal_text D F)"
    from d [OF this] show False by (simp add: is_digit_def)
  qed
qed

lemma remove_last_char:
  "c \<notin> set t \<Longrightarrow> remove_char c (t @ [c]) = t"
  by (auto simp: remove_char_def filter_id_conv)

lemma lower_unit:
  "lower (t @ [u]) = lower t @ [lower_char u]"
  "lower_char (CHR ''b'') = CHR ''b''" "lower_char (CHR ''B'') = CHR ''b''"
  "lower_char (CHR ''m'') = CHR ''m''" "lower_char (CHR ''M'') = CHR ''m''"
  by (simp_all add: lower_def)

lemma convert_billion:
  assumes "D \<noteq> []" "list_all is_digit D" "list_all is_digit F"
    and c: "clean s = decimal_text D F @ [u]" and u: "u = CHR ''b'' \<or> u = CHR ''B''"
  shows "convert_to_number (PStr s) =
         Inr (Some (fmul_int (mk_float False (decimal_value D F)) 1000000000))"
proof -
  note ch = decimal_text_chars [OF assms(2,3)]
  have l: "lower (clean s) = decimal_text D F @ [CHR ''b'']"
    unfolding c lower_unit(1) ch(1) using u lower_unit(2,3) by auto
  have b: "CHR ''b'' \<in> set (lower (clean s))"
    unfolding l by simp
  have "numeric_part s = decimal_text D F"
    unfolding numeric_part_def Let_def l using remove_last_char [OF ch(2)] by simp
  then have "py_float (numeric_part s) = Inr (mk_float False (decimal_value D F))"
    using py_float_decimal_text [OF assms(1-3)] by simp
  then show ?thesis
    unfolding convert_str using b by simp
qed


lemma convert_plain:
  assumes "D \<noteq> []" "list_all is_digit D" "list_all is_digit F"
    and c: "clean s = decimal_text D F"
  shows "convert_to_number (PStr s) = Inr (Some (mk_float False (decimal_value D F)))"
proof -
  note ch = decimal_text_chars [OF assms(2,3)]
  have b: "CHR ''b'' \<notin> set (lower (clean s))" "CHR ''m'' \<notin> set (lower (clean s))"
    unfolding c ch(1) using ch(2,3) by simp_all
  have "numeric_part s = decimal_text D F"
    unfolding numeric_part_def Let_def using b c by simp
  then have "py_float (numeric_part s) = Inr (mk_float False (decimal_value D F))"
    using py_float_decimal_text [OF assms(1-3)] by simp
  then show ?thesis
    unfolding convert_str using b by simp
qed

section \<open>The parser on magnitude strings\<close>

lemmas str_defs = clean_def strip_def remove_char_def lower_def is_space_def numeric_part_def

lemmas float_defs = py_float_def float_strip_def is_float_space_def is_digit_def
  parse_signed_def parse_abs_def parse_decimal_def parse_exponent_def digits_val_def digit_val_def





section \<open>The ratio, the store and \<open>process_item\<close>\<close>

lemma convert_parsed: "convert_to_number v = Inr (parsed v)"
  using convert_to_number_total [of v] by (auto simp: parsed_def)

lemma parsed_non_str: "parsed PNone = None" "parsed (PInt n) = None" "parsed (PFloat x) = None"
  by (simp_all add: parsed_def convert_non_str)

lemma parsed_strip: "parsed (PStr (strip s)) = parsed (PStr s)"
  unfolding parsed_def convert_str numeric_part_strip clean_strip by (rule refl)

lemma parsed_clean: "parsed (PStr (clean s)) = parsed (PStr s)"
  unfolding parsed_def convert_str numeric_part_clean clean_clean by (rule refl)

lemma clean_empty: "clean [] = []"
  by (simp add: clean_def strip_def remove_char_def)

lemma clean_not_found: "clean ''Not found'' = ''Not found''"
  by (simp add: clean_def strip_def remove_char_def is_space_def)

lemma parsed_empty: "parsed (PStr []) = None"
  by (simp add: parsed_def convert_str numeric_part_def clean_empty lower_def py_float_empty)

lemma parsed_not_found: "parsed (PStr ''Not found'') = None"
proof -
  have "numeric_part ''Not found'' = ''Not found''"
    by (simp add: numeric_part_def clean_not_found lower_def)
  moreover have "py_float ''Not found'' = Inl ValueError"
    by (rule py_float_foreign [of "CHR ''o''"]) (simp_all add: float_char_def is_digit_def is_float_space_def)
  ultimately show ?thesis by (simp add: parsed_def convert_str)
qed

lemma py_float_not_calculable: "py_float ''Not calculable'' = Inl ValueError"
  by (rule py_float_foreign [of "CHR ''o''"]) (simp_all add: float_char_def is_digit_def is_float_space_def)

lemma format_2f_not_sentinel: "format_2f x \<noteq> ''Not calculable''"
  using py_float_format_2f [of x] py_float_not_calculable by auto

lemma gt_zero_not_zero: "gt_zero n \<Longrightarrow> \<not> is_zero n"
  by (cases n) auto

lemma truediv_total: "\<not> is_zero n \<Longrightarrow> \<exists>q. truediv m n = Inr q"
  by (cases n; cases m) auto

text \<open>The ratio string of two strings, by what they parse to.\<close>

lemma calc_pe_ratio_str:
  "calc_pe_ratio (PStr a) (PStr b) =
     (case (parsed (PStr a), parsed (PStr b)) of
        (Some m, Some n) \<Rightarrow>
          if \<not> is_zero m \<and> gt_zero n
          then (case truediv m n of Inl e \<Rightarrow> Inl e | Inr q \<Rightarrow> Inr (format_2f q))
          else Inr ''Not calculable''
      | _ \<Rightarrow> Inr ''Not calculable'')"
proof (cases "a \<noteq> [] \<and> b \<noteq> [] \<and> a \<noteq> ''Not found'' \<and> b \<noteq> ''Not found''")
  case True
  then show ?thesis
    by (auto simp: calc_pe_ratio_def as_str_def convert_parsed parsed_strip gt_zero_not_zero
        split: option.splits)
next
  case False
  then have "parsed (PStr a) = None \<or> parsed (PStr b) = None"
    using parsed_empty parsed_not_found by auto
  then show ?thesis
    using False by (auto simp: calc_pe_ratio_def split: option.splits)
qed

lemma calc_pe_ratio_non_str:
  assumes "as_str x = Inl AttributeError \<or> as_str y = Inl AttributeError"
  shows "calc_pe_ratio x y =
     (if truthy x \<and> truthy y \<and> x \<noteq> PStr ''Not found'' \<and> y \<noteq> PStr ''Not found''
      then Inl AttributeError else Inr ''Not calculable'')"
  using assms
  by (cases x; cases y) (auto simp: calc_pe_ratio_def as_str_def convert_parsed split: option.splits)

lemma str_field_cases:
  assumes "str_field f"
  obtains "f = None" | "f = Some PNone" | s where "f = Some (PStr s)"
  using assms by (auto simp: str_field_def split: option.splits pyval.splits)

lemma calc_pe_ratio_str_field:
  assumes "str_field fa" "str_field fb"
  shows "calc_pe_ratio (get fa) (get fb) =
     (case (parsed (get fa), parsed (get fb)) of
        (Some m, Some n) \<Rightarrow>
          if \<not> is_zero m \<and> gt_zero n
          then (case truediv m n of Inl e \<Rightarrow> Inl e | Inr q \<Rightarrow> Inr (format_2f q))
          else Inr ''Not calculable''
      | _ \<Rightarrow> Inr ''Not calculable'')"
proof -
  have n: "calc_pe_ratio PNone y = Inr ''Not calculable''" "calc_pe_ratio x PNone = Inr ''Not calculable''"
    for x y by (simp_all add: calc_pe_ratio_def)
  show ?thesis
    using assms(1)
  proof (cases rule: str_field_cases)
    case 3
    show ?thesis
      using assms(2)
      by (cases rule: str_field_cases)
        (simp_all add: 3 get_def n parsed_non_str calc_pe_ratio_str split: option.splits)
  qed (simp_all add: get_def n parsed_non_str)
qed

text \<open>The ratio string is the sentinel or a formatted float.\<close>

lemma calc_pe_ratio_result:
  assumes "calc_pe_ratio x y = Inr r"
  shows "r = ''Not calculable'' \<or> (\<exists>q. r = format_2f q)"
  using assms
  by (auto simp: calc_pe_ratio_def convert_parsed split: if_splits sum.splits option.splits)

lemma clean_field_idem: "clean_field (clean_field f) = clean_field f"
  by (auto simp: clean_field_def clean_clean split: option.splits pyval.splits)

lemma parsed_clean_field:
  "parsed (get_default (clean_field f) (PStr ''0'')) = parsed (get_default f (PStr ''0''))"
  by (auto simp: clean_field_def get_default_def parsed_clean split: option.splits pyval.splits)

lemma parsed_get_clean_field: "parsed (get (clean_field f)) = parsed (get f)"
  by (auto simp: clean_field_def get_def parsed_clean split: option.splits pyval.splits)

lemma str_field_clean_field: "str_field (clean_field f) = str_field f"
  by (auto simp: clean_field_def str_field_def split: option.splits pyval.splits)

text \<open>Storing an item whose ratio field \<open>process_item\<close> has set.\<close>

lemma store_body_sentinel:
  assumes "pe_ratio it = Some (PStr ''Not calculable'')"
  shows "store_body now d it =
         Inr (insert_row d now (get_default (protocol it) [])
                (parsed (get_default (market_cap it) (PStr ''0'')))
                (parsed (get_default (annual_revenue it) (PStr ''0''))) None)"
  by (simp add: store_body_def convert_parsed assms get_def)

lemma store_body_formatted:
  assumes "pe_ratio it = Some (PStr (format_2f q))"
  shows "\<exists>y. py_float (format_2f q) = Inr y \<and> (y = NaN \<longleftrightarrow> q = NaN) \<and>
           store_body now d it =
           Inr (insert_row d now (get_default (protocol it) [])
                  (parsed (get_default (market_cap it) (PStr ''0'')))
                  (parsed (get_default (annual_revenue it) (PStr ''0''))) (Some y))"
proof -
  obtain y where y: "py_float (format_2f q) = Inr y" "y = NaN \<longleftrightarrow> q = NaN"
    using py_float_format_2f [of q] by blast
  have "store_body now d it =
           Inr (insert_row d now (get_default (protocol it) [])
                  (parsed (get_default (market_cap it) (PStr ''0'')))
                  (parsed (get_default (annual_revenue it) (PStr ''0''))) (Some y))"
    by (simp add: store_body_def convert_parsed assms get_def get_default_def float_of_def y
        format_2f_not_sentinel)
  then show ?thesis using y by blast
qed

text \<open>
  Whenever \<open>process_item\<close> returns, it has appended one row: the table it returns is
  \<open>insert_row\<close> of the numbers parsed from the two fields and of the ratio, which is
  \<open>NULL\<close> for the sentinel and else the float of the formatted quotient.
\<close>

lemma process_item_result:
  assumes "calc_pe_ratio (get (market_cap it)) (get (annual_revenue it)) = Inr r"
  shows "\<exists>pe. process_item now d it =
           Inr (it\<lparr>market_cap := clean_field (market_cap it),
                    annual_revenue := clean_field (annual_revenue it),
                    pe_ratio := Some (PStr r)\<rparr>,
                insert_row d now (get_default (protocol it) [])
                  (parsed (get_default (market_cap it) (PStr ''0'')))
                  (parsed (get_default (annual_revenue it) (PStr ''0''))) pe)
         \<and> (r = ''Not calculable'' \<longrightarrow> pe = None)
         \<and> (\<forall>q. r = format_2f q \<longrightarrow> (\<exists>y. pe = Some y \<and> py_float r = Inr y \<and> (y = NaN \<longleftrightarrow> q = NaN)))"
proof -
  define it2 where "it2 = it\<lparr>market_cap := clean_field (market_cap it),
                    annual_revenue := clean_field (annual_revenue it),
                    pe_ratio := Some (PStr r)\<rparr>"
  have pi: "process_item now d it = Inr (it2, fst (store_in_database now d it2))"
    by (simp add: process_item_def Let_def assms it2_def)
  have f: "pe_ratio it2 = Some (PStr r)" "protocol it2 = protocol it"
    "parsed (get_default (market_cap it2) (PStr ''0'')) = parsed (get_default (market_cap it) (PStr ''0''))"
    "parsed (get_default (annual_revenue it2) (PStr ''0'')) = parsed (get_default (annual_revenue it) (PStr ''0''))"
    by (simp_all add: it2_def parsed_clean_field)
  consider "r = ''Not calculable''" | q where "r = format_2f q"
    using calc_pe_ratio_result [OF assms] by blast
  then show ?thesis
  proof cases
    case 1
    have "store_body now d it2 = Inr (insert_row d now (get_default (protocol it) [])
                (parsed (get_default (market_cap it) (PStr ''0'')))
                (parsed (get_default (annual_revenue it) (PStr ''0''))) None)"
      using store_body_sentinel [of it2 now d] f 1 by simp
    moreover have "r \<noteq> format_2f q" for q
      unfolding 1 using format_2f_not_sentinel [of q] by simp
    ultimately show ?thesis
      using 1 by (simp add: pi store_in_database_def it2_def)
  next
    case 2
    obtain y where y: "py_float (format_2f q) = Inr y" "y = NaN \<longleftrightarrow> q = NaN"
      "store_body now d it2 = Inr (insert_row d now (get_default (protocol it) [])
                (parsed (get_default (market_cap it) (PStr ''0'')))
                (parsed (get_default (annual_revenue it) (PStr ''0''))) (Some y))"
      using store_body_formatted [of it2 q now d] f 2 by auto
    have "\<exists>y'. Some y = Some y' \<and> py_float r = Inr y' \<and> (y' = NaN \<longleftrightarrow> q' = NaN)"
      if "r = format_2f q'" for q'
      using py_float_format_2f [of q'] y(1) that 2 by auto
    then show ?thesis
      using 2 format_2f_not_sentinel [of q] y(3)
      by (auto simp: pi store_in_database_def it2_def)
  qed
qed

text \<open>Some values of the parser and of the formatter.\<close>

lemma parsed_examples:
  "parsed (PStr ''0'') = Some (Finite False 0)"
  "parsed (PStr ''1'') = Some (Finite False 1)"
  "parsed (PStr ''$0B'') = Some (Finite False 0)"
  "parsed (PStr ''$2B'') = Some (Finite False 2000000000)"
  "parsed (PStr ''$10B'') = Some (Finite False 10000000000)"
proof -
  have d: "list_all is_digit ''0''" "list_all is_digit ''1''" "list_all is_digit ''2''"
    "list_all is_digit ''10''" "list_all is_digit []"
    by (simp_all add: is_digit_def)
  have v: "decimal_value ''0'' [] = 0" "decimal_value ''1'' [] = 1" "decimal_value ''2'' [] = 2"
    "decimal_value ''10'' [] = 10"
    by (simp_all add: decimal_value_def digits_val_def digit_val_def)
  have c: "clean ''0'' = decimal_text ''0'' []" "clean ''1'' = decimal_text ''1'' []"
    "clean ''$0B'' = decimal_text ''0'' [] @ ''B''" "clean ''$2B'' = decimal_text ''2'' [] @ ''B''"
    "clean ''$10B'' = decimal_text ''10'' [] @ ''B''"
    by (simp_all add: str_defs decimal_text_def)
  have m: "mk_float False 1 = Finite False 1" "mk_float False 2 = Finite False 2"
    "mk_float False 10 = Finite False 10"
    using mk_float_int [of 1 False] mk_float_int [of 2 False] mk_float_int [of 10 False] by simp_all
  have f: "fmul_int (Finite False 0) 1000000000 = Finite False 0"
    "fmul_int (Finite False 2) 1000000000 = Finite False 2000000000"
    "fmul_int (Finite False 10) 1000000000 = Finite False 10000000000"
    using fmul_int_exact [of 2 1000000000 False] fmul_int_exact [of 10 1000000000 False]
    by (simp_all add: fmul_int_def mk_float_zero)
  show "parsed (PStr ''0'') = Some (Finite False 0)"
    using convert_plain [OF _ d(1) d(5) c(1)] by (simp add: parsed_def v mk_float_zero)
  show "parsed (PStr ''1'') = Some (Finite False 1)"
    using convert_plain [OF _ d(2) d(5) c(2)] by (simp add: parsed_def v m)
  show "parsed (PStr ''$0B'') = Some (Finite False 0)"
    using convert_billion [OF _ d(1) d(5) c(3)] by (simp add: parsed_def v mk_float_zero f)
  show "parsed (PStr ''$2B'') = Some (Finite False 2000000000)"
    using convert_billion [OF _ d(3) d(5) c(4)] by (simp add: parsed_def v m f)
  show "parsed (PStr ''$10B'') = Some (Finite False 10000000000)"
    using convert_billion [OF _ d(4) d(5) c(5)] by (simp add: parsed_def v m f)
qed

lemma format_2f_5: "format_2f (Finite False 5) = ''5.00''"
proof -
  have "round_half_even (5 * 100) = 500"
    using round_half_even_of_int [of 500] by simp
  then show ?thesis
    by (simp add: format_2f_def dec_str.simps [of 5] digit_char_def)
qed

lemma truediv_10B_2B: "truediv (Finite False 10000000000) (Finite False 2000000000) = Inr (Finite False 5)"
  using mk_float_int [of 5 False] by simp

text \<open>Cleaning a field in place does not change the ratio that is computed from it.\<close>

lemma clean_field_facts:
  "truthy (get (clean_field f)) \<Longrightarrow> truthy (get f)"
  "get f = PStr ''Not found'' \<Longrightarrow> get (clean_field f) = PStr ''Not found''"
  "as_str (get (clean_field f)) = Inl AttributeError \<longleftrightarrow> as_str (get f) = Inl AttributeError"
  "get f = PStr a \<Longrightarrow> \<exists>a'. get (clean_field f) = PStr a' \<and> parsed (PStr a') = parsed (PStr a)"
  by (auto simp: clean_field_def get_def as_str_def clean_not_found parsed_clean
      split: option.splits pyval.splits if_splits)

lemma as_str_cases:
  obtains a where "x = PStr a" | "as_str x = Inl AttributeError"
  by (cases x) (auto simp: as_str_def)

lemma calc_pe_ratio_clean_field:
  assumes "calc_pe_ratio (get fa) (get fb) = Inr r"
  shows "calc_pe_ratio (get (clean_field fa)) (get (clean_field fb)) = Inr r"
proof -
  consider a b where "get fa = PStr a" "get fb = PStr b"
    | "as_str (get fa) = Inl AttributeError \<or> as_str (get fb) = Inl AttributeError"
    using as_str_cases [of "get fa"] as_str_cases [of "get fb"] by metis
  then show ?thesis
  proof cases
    case 1
    obtain a' b' where c: "get (clean_field fa) = PStr a'" "parsed (PStr a') = parsed (PStr a)"
      "get (clean_field fb) = PStr b'" "parsed (PStr b') = parsed (PStr b)"
      using clean_field_facts(4) [OF 1(1)] clean_field_facts(4) [OF 1(2)] by blast
    show ?thesis
      using assms unfolding 1 c(1,3) calc_pe_ratio_str c(2,4) .
  next
    case 2
    then have 3: "as_str (get (clean_field fa)) = Inl AttributeError
        \<or> as_str (get (clean_field fb)) = Inl AttributeError"
      by (simp add: clean_field_facts(3))
    have g: "\<not> (truthy (get fa) \<and> truthy (get fb) \<and> get fa \<noteq> PStr ''Not found''
             \<and> get fb \<noteq> PStr ''Not found'')" and r: "r = ''Not calculable''"
      using assms unfolding calc_pe_ratio_non_str [OF 2] by (auto split: if_splits)
    have "\<not> (truthy (get (clean_field fa)) \<and> truthy (get (clean_field fb))
             \<and> get (clean_field fa) \<noteq> PStr ''Not found''
             \<and> get (clean_field fb) \<noteq> PStr ''Not found'')"
      using g clean_field_facts(1,2) by blast
    then show ?thesis
      unfolding calc_pe_ratio_non_str [OF 3] r by simp
  qed
qed

lemma process_item_calc:
  assumes "process_item now d it = Inr (it1, d1)"
  shows "\<exists>r. calc_pe_ratio (get (market_cap it)) (get (annual_revenue it)) = Inr r"
  using assms by (auto simp: process_item_def Let_def split: sum.splits)

text \<open>The new \<open>id\<close> is above every \<open>id\<close> of the table.\<close>

lemma fold_max_ge: "a \<le> fold max xs a" "x \<in> set xs \<Longrightarrow> x \<le> fold max xs (a::nat)"
proof -
  have "fold max xs a = Max (set (a # xs))" by (rule Max.set_eq_fold [symmetric])
  then show "a \<le> fold max xs a" "x \<in> set xs \<Longrightarrow> x \<le> fold max xs a" by simp_all
qed

lemma next_id_above: "r \<in> set (rows d) \<Longrightarrow> row_id r < next_id d"
  using fold_max_ge(2) [of "row_id r" "map row_id (rows d)" "seq d"]
  by (simp add: next_id_def less_Suc_eq_le)

lemma sql_real_None: "sql_real v = None \<longleftrightarrow> v = None \<or> v = Some NaN"
  by (auto simp: sql_real_def split: option.splits pyfloat.splits)

lemma process_item_row:
  assumes "calc_pe_ratio (get (market_cap it)) (get (annual_revenue it)) = Inr r"
  shows "process_item now d it =
           Inr (it\<lparr>market_cap := clean_field (market_cap it),
                    annual_revenue := clean_field (annual_revenue it),
                    pe_ratio := Some (PStr r)\<rparr>,
                insert_row d now (get_default (protocol it) [])
                  (parsed (get_default (market_cap it) (PStr ''0'')))
                  (parsed (get_default (annual_revenue it) (PStr ''0''))) (stored_ratio r))"
proof -
  obtain pe where pe: "process_item now d it =
           Inr (it\<lparr>market_cap := clean_field (market_cap it),
                    annual_revenue := clean_field (annual_revenue it),
                    pe_ratio := Some (PStr r)\<rparr>,
                insert_row d now (get_default (protocol it) [])
                  (parsed (get_default (market_cap it) (PStr ''0'')))
                  (parsed (get_default (annual_revenue it) (PStr ''0''))) pe)"
    "r = ''Not calculable'' \<longrightarrow> pe = None"
    "\<forall>q. r = format_2f q \<longrightarrow> (\<exists>y. pe = Some y \<and> py_float r = Inr y \<and> (y = NaN \<longleftrightarrow> q = NaN))"
    using process_item_result [OF assms, of now d] by blast
  consider "r = ''Not calculable''" | q where "r = format_2f q"
    using calc_pe_ratio_result [OF assms] by blast
  then have "pe = stored_ratio r"
  proof cases
    case 1
    then show ?thesis using pe(2) by (simp add: stored_ratio_def)
  next
    case 2
    then obtain y where "pe = Some y" "py_float r = Inr y" using pe(3) by blast
    then show ?thesis using 2 format_2f_not_sentinel [of q] by (simp add: stored_ratio_def)
  qed
  then show ?thesis using pe(1) by simp
qed

lemma str_item_calc:
  assumes "str_item it"
  shows "\<exists>r. calc_pe_ratio (get (market_cap it)) (get (annual_revenue it)) = Inr r"
proof -
  have sf: "str_field (market_cap it)" "str_field (annual_revenue it)"
    using assms by (simp_all add: str_item_def)
  note calc = calc_pe_ratio_str_field [OF sf]
  show ?thesis
  proof (cases "\<exists>m n. parsed (get (market_cap it)) = Some m
                \<and> parsed (get (annual_revenue it)) = Some n \<and> \<not> is_zero m \<and> gt_zero n")
    case True
    then obtain m n where mn: "parsed (get (market_cap it)) = Some m"
      "parsed (get (annual_revenue it)) = Some n" "\<not> is_zero m" "gt_zero n" by blast
    obtain q where q: "truediv m n = Inr q"
      using truediv_total [of n m] gt_zero_not_zero [OF mn(4)] by blast
    have "calc_pe_ratio (get (market_cap it)) (get (annual_revenue it)) = Inr (format_2f q)"
      by (simp add: calc mn q del: truediv.simps)
    then show ?thesis by blast
  next
    case False
    then have "calc_pe_ratio (get (market_cap it)) (get (annual_revenue it)) = Inr ''Not calculable''"
      unfolding calc by (auto split: option.splits)
    then show ?thesis by blast
  qed
qed

lemma insert_row_rows:
  "insert_row d now tk mc ar pe =
     \<lparr>rows = rows d @
        [\<lparr>row_id = next_id d, timestamp = now, ticker = tk, price = None,
          market_cap_col = sql_real mc, annualized_revenue = sql_real ar,
          pe_ratio_col = sql_real pe\<rparr>],
      seq = next_id d\<rparr>"
  by (simp add: insert_row_def)

lemma py_float_0: "py_float ''0'' = Inr (Finite False 0)"
  using py_float_whole [of "''0''"] by (simp add: is_digit_def digits_val_def digit_val_def mk_float_zero)

lemma py_float_5_00: "py_float ''5.00'' = Inr (Finite False 5)"
proof -
  have "(of_nat (digits_val ''500'') :: rat) * 10 powi (- int (length ''00'')) = 5"
    by (simp add: digits_val_def digit_val_def)
  then show ?thesis
    using py_float_frac(1) [of "''5''" "''00''"] mk_float_int [of 5 False]
    by (simp add: is_digit_def)
qed

section \<open>The claims about the parser\<close>



section \<open>The claims about the ratio\<close>

text \<open>
  C2, as the claim states it, fails: a market cap \<open>"0"\<close> and a revenue \<open>"1"\<close> both
  parse and the revenue is above zero, yet the stored ratio is \<open>NULL\<close>.
\<close>

theorem pe_ratio_zero_cap_counterexample:
  "parsed (PStr ''0'') = Some (Finite False 0) \<and> parsed (PStr ''1'') = Some (Finite False 1)
   \<and> gt_zero (Finite False 1)
   \<and> process_item 7 empty_db
        \<lparr>protocol = Some ''alpha'', market_cap = Some (PStr ''0''),
         annual_revenue = Some (PStr ''1''), pe_ratio = None\<rparr>
      = Inr (\<lparr>protocol = Some ''alpha'', market_cap = Some (PStr ''0''),
              annual_revenue = Some (PStr ''1''), pe_ratio = Some (PStr ''Not calculable'')\<rparr>,
             \<lparr>rows = [\<lparr>row_id = 1, timestamp = 7, ticker = ''alpha'', price = None,
                       market_cap_col = Some (Finite False 0),
                       annualized_revenue = Some (Finite False 1), pe_ratio_col = None\<rparr>],
              seq = 1\<rparr>)"
proof -
  have c: "clean ''0'' = ''0''" "clean ''1'' = ''1''"
    by (simp_all add: str_defs)
  have "calc_pe_ratio (PStr ''0'') (PStr ''1'') = Inr ''Not calculable''"
    by (simp add: calc_pe_ratio_str parsed_examples)
  then show ?thesis
    by (simp add: parsed_examples process_item_def get_def clean_field_def c
        store_in_database_def store_body_sentinel get_default_def insert_row_def next_id_def
        empty_db_def sql_real_def)
qed

text \<open>
  C2, amended. For an item whose two raw fields are strings (or \<open>None\<close>, or absent) the
  pipeline stores one row, and the stored ratio is not \<open>NULL\<close> exactly when both raw
  fields parse, the parsed market cap is not zero, the parsed revenue is above zero, and
  the quotient is a number (not \<open>nan\<close>, which SQLite stores as \<open>NULL\<close>).  A market cap that
  parses to zero gives \<open>NULL\<close>.
\<close>

theorem pe_ratio_stored_iff:
  "str_item it \<longrightarrow>
     (\<exists>it' r. process_item now d it = Inr (it', \<lparr>rows = rows d @ [r], seq = next_id d\<rparr>)
        \<and> (pe_ratio_col r \<noteq> None \<longleftrightarrow>
             (\<exists>m n. parsed (get (market_cap it)) = Some m
                \<and> parsed (get (annual_revenue it)) = Some n
                \<and> \<not> is_zero m \<and> gt_zero n \<and> truediv m n \<noteq> Inr NaN)))"
proof
  assume "str_item it"
  then have sf: "str_field (market_cap it)" "str_field (annual_revenue it)"
    by (simp_all add: str_item_def)
  note calc = calc_pe_ratio_str_field [OF sf]
  let ?P = "\<exists>m n. parsed (get (market_cap it)) = Some m
                \<and> parsed (get (annual_revenue it)) = Some n \<and> \<not> is_zero m \<and> gt_zero n"
  show "\<exists>it' r. process_item now d it = Inr (it', \<lparr>rows = rows d @ [r], seq = next_id d\<rparr>)
        \<and> (pe_ratio_col r \<noteq> None \<longleftrightarrow>
             (\<exists>m n. parsed (get (market_cap it)) = Some m
                \<and> parsed (get (annual_revenue it)) = Some n
                \<and> \<not> is_zero m \<and> gt_zero n \<and> truediv m n \<noteq> Inr NaN))"
  proof (cases ?P)
    case True
    then obtain m n where mn: "parsed (get (market_cap it)) = Some m"
      "parsed (get (annual_revenue it)) = Some n" "\<not> is_zero m" "gt_zero n" by blast
    obtain q where q: "truediv m n = Inr q"
      using truediv_total [of n m] gt_zero_not_zero [OF mn(4)] by blast
    have "calc_pe_ratio (get (market_cap it)) (get (annual_revenue it)) = Inr (format_2f q)"
      by (simp add: calc mn q del: truediv.simps)
    from process_item_result [OF this, of now d]
    obtain pe y where pe: "process_item now d it =
           Inr (it\<lparr>market_cap := clean_field (market_cap it),
                    annual_revenue := clean_field (annual_revenue it),
                    pe_ratio := Some (PStr (format_2f q))\<rparr>,
                insert_row d now (get_default (protocol it) [])
                  (parsed (get_default (market_cap it) (PStr ''0'')))
                  (parsed (get_default (annual_revenue it) (PStr ''0''))) pe)"
      "pe = Some y" "y = NaN \<longleftrightarrow> q = NaN"
      by blast
    have "sql_real pe \<noteq> None \<longleftrightarrow> truediv m n \<noteq> Inr NaN"
      by (simp add: sql_real_None pe(2,3) q del: truediv.simps)
    then show ?thesis
      using mn q by (auto simp: pe(1) insert_row_def simp del: truediv.simps)
  next
    case False
    then have "calc_pe_ratio (get (market_cap it)) (get (annual_revenue it)) = Inr ''Not calculable''"
      unfolding calc by (auto split: option.splits)
    from process_item_result [OF this, of now d]
    obtain pe where pe: "process_item now d it =
           Inr (it\<lparr>market_cap := clean_field (market_cap it),
                    annual_revenue := clean_field (annual_revenue it),
                    pe_ratio := Some (PStr ''Not calculable'')\<rparr>,
                insert_row d now (get_default (protocol it) [])
                  (parsed (get_default (market_cap it) (PStr ''0'')))
                  (parsed (get_default (annual_revenue it) (PStr ''0''))) pe)"
      "pe = None"
      by blast
    show ?thesis
      using False by (auto simp: pe insert_row_def sql_real_def)
  qed
qed

theorem pe_ratio_stored_iff_witness:
  "str_item \<lparr>protocol = Some ''alpha'', market_cap = Some (PStr ''$10B''),
             annual_revenue = Some (PStr ''$2B''), pe_ratio = None\<rparr>
   \<and> (\<exists>it' r. process_item 7 empty_db
          \<lparr>protocol = Some ''alpha'', market_cap = Some (PStr ''$10B''),
           annual_revenue = Some (PStr ''$2B''), pe_ratio = None\<rparr>
        = Inr (it', \<lparr>rows = [r], seq = 1\<rparr>) \<and> pe_ratio_col r \<noteq> None)"
proof -
  let ?it = "\<lparr>protocol = Some ''alpha'', market_cap = Some (PStr ''$10B''),
             annual_revenue = Some (PStr ''$2B''), pe_ratio = None\<rparr>"
  have s: "str_item ?it" by (simp add: str_item_def str_field_def)
  have c: "\<exists>m n. parsed (get (market_cap ?it)) = Some m
                \<and> parsed (get (annual_revenue ?it)) = Some n
                \<and> \<not> is_zero m \<and> gt_zero n \<and> truediv m n \<noteq> Inr NaN"
    by (rule exI [of _ "Finite False 10000000000"], rule exI [of _ "Finite False 2000000000"])
      (simp add: get_def parsed_examples truediv_10B_2B del: truediv.simps)
  show ?thesis
    using pe_ratio_stored_iff [of ?it 7 empty_db] s c
    by (auto simp: empty_db_def next_id_def)
qed

text \<open>
  C3, as the claim states it, fails: \<open>"$0B"\<close> and \<open>"$2B"\<close> are present, are not the
  sentinel, both parse, and the revenue is above zero, yet the result is the sentinel and
  not a formatted quotient.
\<close>

theorem calc_pe_ratio_zero_cap_counterexample:
  "parsed (PStr ''$0B'') = Some (Finite False 0)
   \<and> parsed (PStr ''$2B'') = Some (Finite False 2000000000)
   \<and> gt_zero (Finite False 2000000000)
   \<and> calc_pe_ratio (PStr ''$0B'') (PStr ''$2B'') = Inr ''Not calculable''"
  by (simp add: calc_pe_ratio_str parsed_examples)

text \<open>
  C3, amended. On two strings the ratio calculator returns the quotient of the parsed
  market cap by the parsed revenue, formatted with two decimals, when both strings parse,
  the market cap is not zero and the revenue is above zero; it returns the sentinel
  \<open>"Not calculable"\<close> in every other case, so for a string that is empty or the
  \<open>"Not found"\<close> sentinel (neither parses), for a market cap that parses to zero and for a
  revenue that is not above zero; and it returns the sentinel for an absent market cap.
  \<open>("$10B", "$2B")\<close> gives \<open>"5.00"\<close> and \<open>("$10B", "0")\<close> gives the sentinel.
\<close>

theorem calc_pe_ratio_policy:
  "(parsed (PStr a) = Some m \<and> parsed (PStr b) = Some n \<and> \<not> is_zero m \<and> gt_zero n
      \<longrightarrow> (\<exists>q. truediv m n = Inr q \<and> calc_pe_ratio (PStr a) (PStr b) = Inr (format_2f q)))
   \<and> (parsed (PStr a) = None \<or> parsed (PStr b) = None
       \<or> (\<exists>m. parsed (PStr a) = Some m \<and> is_zero m)
       \<or> (\<exists>n. parsed (PStr b) = Some n \<and> \<not> gt_zero n)
      \<longrightarrow> calc_pe_ratio (PStr a) (PStr b) = Inr ''Not calculable'')
   \<and> parsed (PStr []) = None
   \<and> parsed (PStr ''Not found'') = None
   \<and> calc_pe_ratio PNone (PStr b) = Inr ''Not calculable''
   \<and> calc_pe_ratio (PStr ''$10B'') (PStr ''$2B'') = Inr ''5.00''
   \<and> calc_pe_ratio (PStr ''$10B'') (PStr ''0'') = Inr ''Not calculable''"
proof -
  have ok: "parsed (PStr a) = Some m \<and> parsed (PStr b) = Some n \<and> \<not> is_zero m \<and> gt_zero n
      \<longrightarrow> (\<exists>q. truediv m n = Inr q \<and> calc_pe_ratio (PStr a) (PStr b) = Inr (format_2f q))"
    using truediv_total [of n m] gt_zero_not_zero [of n] by (auto simp: calc_pe_ratio_str)
  have no: "parsed (PStr a) = None \<or> parsed (PStr b) = None
       \<or> (\<exists>m. parsed (PStr a) = Some m \<and> is_zero m)
       \<or> (\<exists>n. parsed (PStr b) = Some n \<and> \<not> gt_zero n)
      \<longrightarrow> calc_pe_ratio (PStr a) (PStr b) = Inr ''Not calculable''"
    by (auto simp: calc_pe_ratio_str split: option.splits)
  have ab: "calc_pe_ratio PNone (PStr b) = Inr ''Not calculable''"
    by (simp add: calc_pe_ratio_def)
  have e1: "calc_pe_ratio (PStr ''$10B'') (PStr ''$2B'') = Inr ''5.00''"
    by (simp add: calc_pe_ratio_str parsed_examples truediv_10B_2B format_2f_5 del: truediv.simps)
  have e2: "calc_pe_ratio (PStr ''$10B'') (PStr ''0'') = Inr ''Not calculable''"
    by (simp add: calc_pe_ratio_str parsed_examples)
  show ?thesis
    by (intro conjI ok no parsed_empty parsed_not_found ab e1 e2)
qed

theorem calc_pe_ratio_policy_witness:
  "parsed (PStr ''$10B'') = Some (Finite False 10000000000)
   \<and> parsed (PStr ''$2B'') = Some (Finite False 2000000000)
   \<and> \<not> is_zero (Finite False 10000000000) \<and> gt_zero (Finite False 2000000000)
   \<and> truediv (Finite False 10000000000) (Finite False 2000000000) = Inr (Finite False 5)
   \<and> calc_pe_ratio (PStr ''$10B'') (PStr ''$2B'') = Inr (format_2f (Finite False 5))"
  using calc_pe_ratio_policy [of "''$10B''" "Finite False 10000000000" "''$2B''"
      "Finite False 2000000000"]
  by (simp add: parsed_examples truediv_10B_2B del: truediv.simps)

text \<open>
  C4, as the claim states it, fails: the cleaned remainder of \<open>"$NaN"\<close> is \<open>NaN\<close>, which
  holds no digit, and the parser returns the float \<open>nan\<close>, not \<open>None\<close>.
\<close>

theorem convert_to_number_nan_counterexample:
  "numeric_part ''$NaN'' = ''NaN'' \<and> convert_to_number (PStr ''$NaN'') = Inr (Some NaN)"
proof -
  have n: "numeric_part ''$NaN'' = ''NaN''"
    "CHR ''b'' \<notin> set (lower (clean ''$NaN''))" "CHR ''m'' \<notin> set (lower (clean ''$NaN''))"
    by (simp_all add: str_defs)
  have "py_float ''NaN'' = Inr NaN"
    by (simp add: float_defs lower_def remove_char_def)
  then show ?thesis using n by (simp add: convert_str)
qed

text \<open>
  C4, amended. Whatever value the parser is given, it returns and no exception leaves it.
  It returns \<open>None\<close> for the empty string, for a lone currency sign, for \<open>None\<close>, for every
  string whose cleaned remainder holds no digit and does not spell an infinity or
  not-a-number, and for every string whose cleaned remainder holds a character that no
  string accepted by \<open>float\<close> contains.  A cleaned remainder that spells \<open>inf\<close>,
  \<open>infinity\<close> or \<open>nan\<close> is not rejected: the parser returns that float.
\<close>

theorem convert_to_number_never_raises:
  "(\<exists>r. convert_to_number v = Inr r)
   \<and> convert_to_number (PStr []) = Inr None
   \<and> convert_to_number (PStr ''$'') = Inr None
   \<and> convert_to_number PNone = Inr None
   \<and> ((\<forall>c\<in>set (numeric_part s). \<not> is_digit c) \<and> \<not> spells_inf_nan (numeric_part s)
      \<longrightarrow> convert_to_number (PStr s) = Inr None)
   \<and> ((\<exists>c\<in>set (numeric_part s). \<not> float_char c) \<longrightarrow> convert_to_number (PStr s) = Inr None)
   \<and> (spells_inf_nan (numeric_part s)
      \<longrightarrow> convert_to_number (PStr s)
          \<in> {Inr (Some (Infinite False)), Inr (Some (Infinite True)), Inr (Some NaN)})"
proof -
  have "numeric_part [] = []" "numeric_part ''$'' = []"
    by (simp_all add: numeric_part_def clean_def strip_def remove_char_def lower_def)
  then have e: "convert_to_number (PStr []) = Inr None" "convert_to_number (PStr ''$'') = Inr None"
    by (simp_all add: convert_str py_float_empty)
  have nd: "(\<forall>c\<in>set (numeric_part s). \<not> is_digit c) \<and> \<not> spells_inf_nan (numeric_part s)
      \<longrightarrow> convert_to_number (PStr s) = Inr None"
    using py_float_no_digit [of "numeric_part s"] by (simp add: convert_str)
  have fc: "(\<exists>c\<in>set (numeric_part s). \<not> float_char c) \<longrightarrow> convert_to_number (PStr s) = Inr None"
    using py_float_foreign [of _ "numeric_part s"] by (auto simp: convert_str)
  have sp: "spells_inf_nan (numeric_part s)
      \<longrightarrow> convert_to_number (PStr s)
          \<in> {Inr (Some (Infinite False)), Inr (Some (Infinite True)), Inr (Some NaN)}"
  proof
    assume "spells_inf_nan (numeric_part s)"
    from py_float_inf_nan [OF this]
    show "convert_to_number (PStr s)
          \<in> {Inr (Some (Infinite False)), Inr (Some (Infinite True)), Inr (Some NaN)}"
      by (auto simp: convert_str fmul_int_special split: if_splits)
  qed
  show ?thesis
    by (intro conjI convert_to_number_total e convert_non_str(1) nd fc sp)
qed

theorem convert_to_number_never_raises_witness:
  "numeric_part ''abc'' = ''ac'' \<and> \<not> spells_inf_nan ''ac'' \<and> \<not> float_char (CHR ''c'')
   \<and> convert_to_number (PStr ''abc'') = Inr None"
proof -
  have n: "numeric_part ''abc'' = ''ac''"
    by (simp add: str_defs)
  have s: "\<not> spells_inf_nan ''ac''"
    by (simp add: spells_inf_nan_def float_strip_def is_float_space_def lower_def)
  have d: "\<forall>c\<in>set ''ac''. \<not> is_digit c"
    by (simp add: is_digit_def)
  have f: "\<not> float_char (CHR ''c'')"
    by (simp add: float_char_def is_digit_def is_float_space_def)
  show ?thesis
    using convert_to_number_never_raises [of "PStr ''abc''" "''abc''"] n s d f by simp
qed

text \<open>
  C5, as the claim states it, fails: the float \<open>5.0\<close> is not returned.
\<close>

theorem convert_to_number_float_counterexample:
  "convert_to_number (PFloat (Finite False 5)) \<noteq> Inr (Some (Finite False 5))"
  by (simp add: convert_non_str)

text \<open>
  C5, amended. A value that is a number, an \<open>int\<close> or a \<open>float\<close>, has no \<open>replace\<close>
  method; the \<open>AttributeError\<close> is caught and the parser returns \<open>None\<close>.
\<close>

theorem convert_to_number_number_is_None:
  "convert_body (PInt n) = Inl AttributeError \<and> convert_to_number (PInt n) = Inr None
   \<and> convert_body (PFloat x) = Inl AttributeError \<and> convert_to_number (PFloat x) = Inr None"
  by (simp add: convert_non_str convert_body_def as_str_def)

section \<open>The claims about the normalizer\<close>

text \<open>
  C9. Whenever \<open>process_item\<close> returns on an item, applying it again, to the item it has
  returned (the same object, now cleaned) or to a fresh copy of the raw item, at any time
  and on any table, returns the same item and stores a row with the same ticker, price,
  market cap, revenue and ratio; only \<open>id\<close> and \<open>timestamp\<close> can differ.
\<close>

theorem process_item_idempotent:
  "process_item now d it = Inr (it1, d1) \<longrightarrow>
     (\<exists>d2. process_item now' d' it1 = Inr (it1, d2)
        \<and> row_fields (last (rows d2)) = row_fields (last (rows d1)))
     \<and> (\<exists>d3. process_item now' d' it = Inr (it1, d3)
        \<and> row_fields (last (rows d3)) = row_fields (last (rows d1)))"
proof
  assume a: "process_item now d it = Inr (it1, d1)"
  obtain r where r: "calc_pe_ratio (get (market_cap it)) (get (annual_revenue it)) = Inr r"
    using process_item_calc [OF a] by blast
  have it1: "it1 = it\<lparr>market_cap := clean_field (market_cap it),
                    annual_revenue := clean_field (annual_revenue it),
                    pe_ratio := Some (PStr r)\<rparr>"
    and d1: "d1 = insert_row d now (get_default (protocol it) [])
                  (parsed (get_default (market_cap it) (PStr ''0'')))
                  (parsed (get_default (annual_revenue it) (PStr ''0''))) (stored_ratio r)"
    using a unfolding process_item_row [OF r] by simp_all
  have r1: "calc_pe_ratio (get (market_cap it1)) (get (annual_revenue it1)) = Inr r"
    using calc_pe_ratio_clean_field [OF r] by (simp add: it1)
  have again: "process_item now' d' it1 =
      Inr (it1, insert_row d' now' (get_default (protocol it) [])
                  (parsed (get_default (market_cap it) (PStr ''0'')))
                  (parsed (get_default (annual_revenue it) (PStr ''0''))) (stored_ratio r))"
    unfolding process_item_row [OF r1] by (simp add: it1 clean_field_idem parsed_clean_field)
  have fresh: "process_item now' d' it =
      Inr (it1, insert_row d' now' (get_default (protocol it) [])
                  (parsed (get_default (market_cap it) (PStr ''0'')))
                  (parsed (get_default (annual_revenue it) (PStr ''0''))) (stored_ratio r))"
    unfolding process_item_row [OF r] by (simp add: it1)
  have f: "row_fields (last (rows (insert_row d' now' tk mc ar pe)))
         = row_fields (last (rows (insert_row d now tk mc ar pe)))" for tk mc ar pe
    by (simp add: insert_row_def row_fields_def)
  show "(\<exists>d2. process_item now' d' it1 = Inr (it1, d2)
        \<and> row_fields (last (rows d2)) = row_fields (last (rows d1)))
     \<and> (\<exists>d3. process_item now' d' it = Inr (it1, d3)
        \<and> row_fields (last (rows d3)) = row_fields (last (rows d1)))"
    unfolding again fresh d1 using f by simp
qed

theorem process_item_idempotent_witness:
  "process_item 7 empty_db
      \<lparr>protocol = Some ''alpha'', market_cap = Some (PStr ''$10B''),
       annual_revenue = Some (PStr ''$2B''), pe_ratio = None\<rparr>
    = Inr (\<lparr>protocol = Some ''alpha'', market_cap = Some (PStr ''10B''),
            annual_revenue = Some (PStr ''2B''), pe_ratio = Some (PStr ''5.00'')\<rparr>,
           insert_row empty_db 7 ''alpha'' (Some (Finite False 10000000000))
             (Some (Finite False 2000000000)) (Some (Finite False 5)))
   \<and> (\<exists>d2. process_item 9 empty_db
        \<lparr>protocol = Some ''alpha'', market_cap = Some (PStr ''10B''),
         annual_revenue = Some (PStr ''2B''), pe_ratio = Some (PStr ''5.00'')\<rparr>
      = Inr (\<lparr>protocol = Some ''alpha'', market_cap = Some (PStr ''10B''),
            annual_revenue = Some (PStr ''2B''), pe_ratio = Some (PStr ''5.00'')\<rparr>, d2))"
proof -
  let ?it = "\<lparr>protocol = Some ''alpha'', market_cap = Some (PStr ''$10B''),
       annual_revenue = Some (PStr ''$2B''), pe_ratio = None\<rparr>"
  have c: "clean ''$10B'' = ''10B''" "clean ''$2B'' = ''2B''"
    by (simp_all add: str_defs)
  have r: "calc_pe_ratio (get (market_cap ?it)) (get (annual_revenue ?it)) = Inr ''5.00''"
    by (simp add: get_def calc_pe_ratio_str parsed_examples truediv_10B_2B format_2f_5
        del: truediv.simps)
  have s: "stored_ratio ''5.00'' = Some (Finite False 5)"
    by (simp add: stored_ratio_def py_float_5_00)
  have p: "process_item 7 empty_db ?it
    = Inr (\<lparr>protocol = Some ''alpha'', market_cap = Some (PStr ''10B''),
            annual_revenue = Some (PStr ''2B''), pe_ratio = Some (PStr ''5.00'')\<rparr>,
           insert_row empty_db 7 ''alpha'' (Some (Finite False 10000000000))
             (Some (Finite False 2000000000)) (Some (Finite False 5)))"
    unfolding process_item_row [OF r]
    by (simp add: clean_field_def c get_default_def parsed_examples s)
  show ?thesis
    using process_item_idempotent [of 7 empty_db ?it _ _ 9 empty_db] p by auto
qed

text \<open>
  C10, as the claim states it, fails: the item that the caller passes is changed.  After
  the call its market cap is \<open>"10B"\<close>, no longer \<open>"$10B"\<close>, and it has a ratio.
\<close>

theorem process_item_mutates_counterexample:
  "process_item 7 empty_db
      \<lparr>protocol = Some ''alpha'', market_cap = Some (PStr ''$10B''),
       annual_revenue = Some (PStr ''$2B''), pe_ratio = None\<rparr>
    = Inr (\<lparr>protocol = Some ''alpha'', market_cap = Some (PStr ''10B''),
            annual_revenue = Some (PStr ''2B''), pe_ratio = Some (PStr ''5.00'')\<rparr>,
           \<lparr>rows = [\<lparr>row_id = 1, timestamp = 7, ticker = ''alpha'', price = None,
                     market_cap_col = Some (Finite False 10000000000),
                     annualized_revenue = Some (Finite False 2000000000),
                     pe_ratio_col = Some (Finite False 5)\<rparr>],
            seq = 1\<rparr>)
   \<and> \<lparr>protocol = Some ''alpha'', market_cap = Some (PStr ''10B''),
       annual_revenue = Some (PStr ''2B''), pe_ratio = Some (PStr ''5.00'')\<rparr>
     \<noteq> \<lparr>protocol = Some ''alpha'', market_cap = Some (PStr ''$10B''),
         annual_revenue = Some (PStr ''$2B''), pe_ratio = None\<rparr>"
proof -
  let ?it = "\<lparr>protocol = Some ''alpha'', market_cap = Some (PStr ''$10B''),
       annual_revenue = Some (PStr ''$2B''), pe_ratio = None\<rparr>"
  have c: "clean ''$10B'' = ''10B''" "clean ''$2B'' = ''2B''"
    by (simp_all add: str_defs)
  have r: "calc_pe_ratio (get (market_cap ?it)) (get (annual_revenue ?it)) = Inr ''5.00''"
    by (simp add: get_def calc_pe_ratio_str parsed_examples truediv_10B_2B format_2f_5
        del: truediv.simps)
  have s: "stored_ratio ''5.00'' = Some (Finite False 5)"
    by (simp add: stored_ratio_def py_float_5_00)
  show ?thesis
    unfolding process_item_row [OF r]
    by (simp add: clean_field_def c get_default_def parsed_examples s insert_row_def
        next_id_def empty_db_def sql_real_def)
qed

text \<open>
  C10, amended. \<open>process_item\<close> works on the caller's item in place.  For an item whose two
  raw fields are strings (or \<open>None\<close>, or absent) it returns that item with each string
  field replaced by its cleaned form and with the ratio string set, the protocol and every
  field that is not a string left as they were; and it appends exactly one row, with the
  next \<open>id\<close>, the reading of the clock, the protocol, no price, the numbers parsed from the
  two fields and the ratio.  A field that does not parse is stored as \<open>NULL\<close>, and the row
  is stored all the same with the other columns.
\<close>

theorem process_item_effects:
  "(str_item it \<longrightarrow>
      (\<exists>r. process_item now d it =
         Inr (it\<lparr>market_cap := clean_field (market_cap it),
                  annual_revenue := clean_field (annual_revenue it),
                  pe_ratio := Some (PStr r)\<rparr>,
              \<lparr>rows = rows d @
                 [\<lparr>row_id = next_id d, timestamp = now,
                   ticker = get_default (protocol it) [], price = None,
                   market_cap_col = sql_real (parsed (get_default (market_cap it) (PStr ''0''))),
                   annualized_revenue =
                     sql_real (parsed (get_default (annual_revenue it) (PStr ''0''))),
                   pe_ratio_col = sql_real (stored_ratio r)\<rparr>],
               seq = next_id d\<rparr>)))
   \<and> clean_field (Some (PStr a)) = Some (PStr (clean a))
   \<and> clean_field None = None \<and> clean_field (Some PNone) = Some PNone
   \<and> (str_item it \<and> market_cap it = Some (PStr a) \<and> parsed (PStr a) = None \<longrightarrow>
        (\<exists>it' r. process_item now d it = Inr (it', \<lparr>rows = rows d @ [r], seq = next_id d\<rparr>)
           \<and> market_cap_col r = None
           \<and> ticker r = get_default (protocol it) []
           \<and> annualized_revenue r
               = sql_real (parsed (get_default (annual_revenue it) (PStr ''0'')))))
   \<and> (str_item it \<and> annual_revenue it = Some (PStr a) \<and> parsed (PStr a) = None \<longrightarrow>
        (\<exists>it' r. process_item now d it = Inr (it', \<lparr>rows = rows d @ [r], seq = next_id d\<rparr>)
           \<and> annualized_revenue r = None
           \<and> ticker r = get_default (protocol it) []
           \<and> market_cap_col r
               = sql_real (parsed (get_default (market_cap it) (PStr ''0'')))))"
proof -
  have main: "\<exists>r. process_item now d it =
         Inr (it\<lparr>market_cap := clean_field (market_cap it),
                  annual_revenue := clean_field (annual_revenue it),
                  pe_ratio := Some (PStr r)\<rparr>,
              \<lparr>rows = rows d @
                 [\<lparr>row_id = next_id d, timestamp = now,
                   ticker = get_default (protocol it) [], price = None,
                   market_cap_col = sql_real (parsed (get_default (market_cap it) (PStr ''0''))),
                   annualized_revenue =
                     sql_real (parsed (get_default (annual_revenue it) (PStr ''0''))),
                   pe_ratio_col = sql_real (stored_ratio r)\<rparr>],
               seq = next_id d\<rparr>)" if si: "str_item it"
  proof -
    obtain r where r: "calc_pe_ratio (get (market_cap it)) (get (annual_revenue it)) = Inr r"
      using str_item_calc [OF si] by blast
    show ?thesis
      unfolding process_item_row [OF r] insert_row_rows by blast
  qed
  have cf: "clean_field (Some (PStr a)) = Some (PStr (clean a))"
    "clean_field None = None" "clean_field (Some PNone) = Some PNone"
    by (simp_all add: clean_field_def clean_empty)
  have mc: "\<exists>it' r. process_item now d it = Inr (it', \<lparr>rows = rows d @ [r], seq = next_id d\<rparr>)
           \<and> market_cap_col r = None
           \<and> ticker r = get_default (protocol it) []
           \<and> annualized_revenue r
               = sql_real (parsed (get_default (annual_revenue it) (PStr ''0'')))"
    if h: "str_item it" "market_cap it = Some (PStr a)" "parsed (PStr a) = None"
  proof -
    obtain r where r: "calc_pe_ratio (get (market_cap it)) (get (annual_revenue it)) = Inr r"
      using str_item_calc [OF h(1)] by blast
    show ?thesis
      unfolding process_item_row [OF r] insert_row_rows
      using h(2,3) by (simp add: get_default_def sql_real_def)
  qed
  have ar: "\<exists>it' r. process_item now d it = Inr (it', \<lparr>rows = rows d @ [r], seq = next_id d\<rparr>)
           \<and> annualized_revenue r = None
           \<and> ticker r = get_default (protocol it) []
           \<and> market_cap_col r
               = sql_real (parsed (get_default (market_cap it) (PStr ''0'')))"
    if h: "str_item it" "annual_revenue it = Some (PStr a)" "parsed (PStr a) = None"
  proof -
    obtain r where r: "calc_pe_ratio (get (market_cap it)) (get (annual_revenue it)) = Inr r"
      using str_item_calc [OF h(1)] by blast
    show ?thesis
      unfolding process_item_row [OF r] insert_row_rows
      using h(2,3) by (simp add: get_default_def sql_real_def)
  qed
  show ?thesis
    using main cf mc ar by blast
qed

theorem process_item_effects_witness:
  "str_item \<lparr>protocol = Some ''alpha'', market_cap = Some (PStr ''Not found''),
             annual_revenue = Some (PStr ''$2B''), pe_ratio = None\<rparr>
   \<and> parsed (PStr ''Not found'') = None
   \<and> (\<exists>it' r. process_item 7 empty_db
          \<lparr>protocol = Some ''alpha'', market_cap = Some (PStr ''Not found''),
           annual_revenue = Some (PStr ''$2B''), pe_ratio = None\<rparr>
        = Inr (it', \<lparr>rows = [r], seq = 1\<rparr>)
        \<and> market_cap_col r = None \<and> ticker r = ''alpha''
        \<and> annualized_revenue r = Some (Finite False 2000000000))"
proof -
  let ?it = "\<lparr>protocol = Some ''alpha'', market_cap = Some (PStr ''Not found''),
             annual_revenue = Some (PStr ''$2B''), pe_ratio = None\<rparr>"
  have s: "str_item ?it" by (simp add: str_item_def str_field_def)
  show ?thesis
    using process_item_effects [of ?it 7 empty_db "''Not found''"] s parsed_not_found
    by (simp add: empty_db_def next_id_def get_default_def parsed_examples sql_real_def)
qed

end
